theory Spec2Isabelle
  imports Main
begin

section \<open>Go values: strings, runes, errors, panics\<close>

text \<open>
  A Go \<^verbatim>\<open>string\<close> is a sequence of bytes, here a \<^typ>\<open>string\<close> (a list of
  8-bit characters); \<^verbatim>\<open>len\<close> is \<^const>\<open>length\<close> and a slice expression is
  \<^const>\<open>take\<close>/\<^const>\<open>drop\<close> guarded by the bounds check of the Go run time.
  A rune is a natural number (the code points that occur are below \<open>0x110000\<close>).
\<close>

type_synonym rune = nat

datatype error =
    ErrInvalidResultMode
  | Canceled                \<comment> \<open>\<^verbatim>\<open>context.Canceled\<close>\<close>
  | DeadlineExceeded        \<comment> \<open>\<^verbatim>\<open>context.DeadlineExceeded\<close>\<close>
  | EOF                     \<comment> \<open>\<^verbatim>\<open>io.EOF\<close>\<close>
  | ErrTooLong              \<comment> \<open>\<^verbatim>\<open>bufio.ErrTooLong\<close>\<close>
  | ErrNoProgress           \<comment> \<open>\<^verbatim>\<open>io.ErrNoProgress\<close>\<close>
  | ErrorString string      \<comment> \<open>\<^verbatim>\<open>errors.New(s)\<close>\<close>
  | External string         \<comment> \<open>an error made by the AWS SDK, S3, gzip or a reader\<close>

datatype panic =
    NilDereference
  | SliceBoundsOutOfRange

subsection \<open>\<^verbatim>\<open>unicode/utf8\<close>\<close>

definition RuneError :: rune where
  "RuneError = 0xFFFD"

definition cont :: "nat \<Rightarrow> nat \<Rightarrow> char \<Rightarrow> bool" where
  "cont lo hi b = (lo \<le> (of_char b :: nat) \<and> (of_char b :: nat) \<le> hi)"

text \<open>
  \<^verbatim>\<open>utf8.DecodeRune\<close>: the rune at the head of the bytes and its width. The
  table \<^verbatim>\<open>first\<close> of the library gives, for the leading byte, the size of the
  sequence and the range accepted for the second byte; \<open>seq_info\<close> is that table.
  Empty input gives \<open>(RuneError, 0)\<close>, an ill-formed or truncated sequence
  \<open>(RuneError, 1)\<close>.
\<close>

definition seq_info :: "nat \<Rightarrow> (nat \<times> nat \<times> nat) option" where
  "seq_info p0 =
     (if 0xC2 \<le> p0 \<and> p0 \<le> 0xDF then Some (2, 0x80, 0xBF)
      else if p0 = 0xE0 then Some (3, 0xA0, 0xBF)
      else if 0xE1 \<le> p0 \<and> p0 \<le> 0xEC then Some (3, 0x80, 0xBF)
      else if p0 = 0xED then Some (3, 0x80, 0x9F)
      else if 0xEE \<le> p0 \<and> p0 \<le> 0xEF then Some (3, 0x80, 0xBF)
      else if p0 = 0xF0 then Some (4, 0x90, 0xBF)
      else if 0xF1 \<le> p0 \<and> p0 \<le> 0xF3 then Some (4, 0x80, 0xBF)
      else if p0 = 0xF4 then Some (4, 0x80, 0x8F)
      else None)"

definition DecodeRune :: "string \<Rightarrow> rune \<times> nat" where
  "DecodeRune p =
     (case p of
        [] \<Rightarrow> (RuneError, 0)
      | c0 # p1 \<Rightarrow>
          let p0 = (of_char c0 :: nat) in
          if p0 < 0x80 then (p0, 1)
          else (case seq_info p0 of
              None \<Rightarrow> (RuneError, 1)
            | Some (sz, lo, hi) \<Rightarrow>
                if length p < sz then (RuneError, 1)
                else if \<not> cont lo hi (p ! 1) then (RuneError, 1)
                else if sz \<le> 2 then
                  ((p0 mod 32) * 64 + (of_char (p ! 1) :: nat) mod 64, 2)
                else if \<not> cont 0x80 0xBF (p ! 2) then (RuneError, 1)
                else if sz \<le> 3 then
                  ((p0 mod 16) * 4096 + ((of_char (p ! 1) :: nat) mod 64) * 64
                     + (of_char (p ! 2) :: nat) mod 64, 3)
                else if \<not> cont 0x80 0xBF (p ! 3) then (RuneError, 1)
                else
                  ((p0 mod 8) * 262144 + ((of_char (p ! 1) :: nat) mod 64) * 4096
                     + ((of_char (p ! 2) :: nat) mod 64) * 64
                     + (of_char (p ! 3) :: nat) mod 64, 4)))"

text \<open>
  The conversion \<^verbatim>\<open>string(r)\<close> of a rune: its UTF-8 encoding, and the encoding
  of \<open>RuneError\<close> for a surrogate or a value above \<open>0x10FFFF\<close>.
\<close>

definition string_of_rune :: "rune \<Rightarrow> string" where
  "string_of_rune r =
     (if r \<le> 0x7F then [char_of r]
      else if r \<le> 0x7FF then [char_of (0xC0 + r div 64), char_of (0x80 + r mod 64)]
      else if 0x10FFFF < r \<or> (0xD800 \<le> r \<and> r \<le> 0xDFFF) then
        [CHR 0xEF, CHR 0xBF, CHR 0xBD]
      else if r \<le> 0xFFFF then
        [char_of (0xE0 + r div 4096), char_of (0x80 + (r div 64) mod 64),
         char_of (0x80 + r mod 64)]
      else
        [char_of (0xF0 + r div 262144), char_of (0x80 + (r div 4096) mod 64),
         char_of (0x80 + (r div 64) mod 64), char_of (0x80 + r mod 64)])"

text \<open>
  The runes of a string, as the \<^verbatim>\<open>regexp\<close> package reads its input: one
  \<^verbatim>\<open>DecodeRune\<close> after the other, an ill-formed byte read as \<open>RuneError\<close>.
\<close>

function runes :: "string \<Rightarrow> rune list" where
  "runes p = (if p = [] then [] else fst (DecodeRune p) # runes (drop (snd (DecodeRune p)) p))"
  by pat_completeness auto
termination
proof (relation "measure length")
  fix p :: string
  assume "p \<noteq> []"
  then have "0 < snd (DecodeRune p)"
    by (cases p) (auto simp: DecodeRune_def Let_def split: option.splits)
  with \<open>p \<noteq> []\<close> show "(drop (snd (DecodeRune p)) p, p) \<in> measure length"
    by simp
qed simp

declare runes.simps [simp del]

section \<open>Query classification (conn.go)\<close>

subsection \<open>The three patterns\<close>

text \<open>
  The patterns are compiled with the flag \<^verbatim>\<open>(?i)\<close>: a letter of the pattern matches
  every rune of its orbit under Unicode simple case folding. For the ASCII letters
  that is the upper- and the lower-case letter, and for \<open>K\<close> also U+212A (Kelvin
  sign), for \<open>S\<close> also U+017F (long s).
\<close>

definition fold_orbit :: "char \<Rightarrow> rune list" where
  "fold_orbit c =
     (let u = (of_char c :: nat) in
      [u, u + 32] @ (if c = CHR ''K'' then [0x212A] else [])
                  @ (if c = CHR ''S'' then [0x17F] else []))"

text \<open>
  Matching from a position, in continuation style: \<open>lit s k\<close> is the literal \<open>s\<close>
  (upper-case letters) followed by \<open>k\<close>; \<open>dot_plus k\<close> is \<^verbatim>\<open>.+\<close> followed by \<open>k\<close>
  (\<^verbatim>\<open>.\<close> is every rune but the newline); \<open>space_plus k\<close> is \<^verbatim>\<open>\s+\<close> followed by
  \<open>k\<close> (\<^verbatim>\<open>\s\<close> is tab, newline, form feed, carriage return, space); \<open>anything\<close>
  ends an unanchored pattern.
\<close>

fun lit :: "string \<Rightarrow> (rune list \<Rightarrow> bool) \<Rightarrow> rune list \<Rightarrow> bool" where
  "lit [] k rs = k rs"
| "lit (c # cs) k [] = False"
| "lit (c # cs) k (r # rs) = (r \<in> set (fold_orbit c) \<and> lit cs k rs)"

fun dot_plus :: "(rune list \<Rightarrow> bool) \<Rightarrow> rune list \<Rightarrow> bool" where
  "dot_plus k [] = False"
| "dot_plus k (r # rs) = (r \<noteq> 0x0A \<and> (k rs \<or> dot_plus k rs))"

definition is_space :: "rune \<Rightarrow> bool" where
  "is_space r = (r = 0x09 \<or> r = 0x0A \<or> r = 0x0C \<or> r = 0x0D \<or> r = 0x20)"

fun space_plus :: "(rune list \<Rightarrow> bool) \<Rightarrow> rune list \<Rightarrow> bool" where
  "space_plus k [] = False"
| "space_plus k (r # rs) = (is_space r \<and> (k rs \<or> space_plus k rs))"

definition anything :: "rune list \<Rightarrow> bool" where
  "anything rs = True"

text \<open>\<^verbatim>\<open>(?i)^(ALTER|CREATE|DESCRIBE|DROP|MSCK|SHOW)\<close>\<close>

definition ddlQueryPattern :: "string \<Rightarrow> bool" where
  "ddlQueryPattern query =
     (\<exists>kw \<in> set [''ALTER'', ''CREATE'', ''DESCRIBE'', ''DROP'', ''MSCK'', ''SHOW''].
        lit kw anything (runes query))"

text \<open>\<^verbatim>\<open>(?i)^SELECT\<close>\<close>

definition selectQueryPattern :: "string \<Rightarrow> bool" where
  "selectQueryPattern query = lit ''SELECT'' anything (runes query)"

text \<open>\<^verbatim>\<open>(?i)^CREATE.+AS\s+SELECT\<close>\<close>

definition ctasQueryPattern :: "string \<Rightarrow> bool" where
  "ctasQueryPattern query =
     lit ''CREATE'' (dot_plus (lit ''AS'' (space_plus (lit ''SELECT'' anything)))) (runes query)"

subsection \<open>\<^verbatim>\<open>getQueryType\<close> and its three tests\<close>

datatype queryType = queryTypeUnknown | queryTypeDDL | queryTypeSelect | queryTypeCTAS

definition getQueryType :: "string \<Rightarrow> queryType" where
  "getQueryType query =
     (if ddlQueryPattern query then queryTypeDDL
      else if ctasQueryPattern query then queryTypeCTAS
      else if selectQueryPattern query then queryTypeSelect
      else queryTypeUnknown)"

definition isDDLQuery :: "string \<Rightarrow> bool" where
  "isDDLQuery query = (getQueryType query = queryTypeDDL)"

definition isSelectQuery :: "string \<Rightarrow> bool" where
  "isSelectQuery query = (getQueryType query = queryTypeSelect)"

definition isCTASQuery :: "string \<Rightarrow> bool" where
  "isCTASQuery query = (getQueryType query = queryTypeCTAS)"

section \<open>The connection (conn.go)\<close>

subsection \<open>Result modes and the per-call context\<close>

text \<open>
  Modelled from the spec: the type \<^verbatim>\<open>ResultMode\<close> and its constants are declared
  outside conn.go and rows_gzip.go. The spec gives the closed enumeration API,
  Direct-Download, Compressed-Download, and says that a value outside of it is
  possible and is an error; \<open>ResultModeOther\<close> stands for the values of the
  underlying integer type other than the three constants.
\<close>

datatype ResultMode = ResultModeAPI | ResultModeDL | ResultModeGzipDL | ResultModeOther int

text \<open>
  Modelled from the spec: the context carries the optional per-call overrides
  (result mode, timeout, catalog); \<^verbatim>\<open>getResultMode\<close>, \<^verbatim>\<open>getTimeout\<close> and
  \<^verbatim>\<open>getCatalog\<close> return the value and whether it is present.
\<close>

record Context =
  resultModeValue :: "ResultMode option"
  timeoutValue :: "nat option"
  catalogValue :: "string option"

definition getResultMode :: "Context \<Rightarrow> ResultMode option" where
  "getResultMode ctx = resultModeValue ctx"

definition getTimeout :: "Context \<Rightarrow> nat option" where
  "getTimeout ctx = timeoutValue ctx"

definition getCatalog :: "Context \<Rightarrow> string option" where
  "getCatalog ctx = catalogValue ctx"

record conn =
  db :: string
  OutputLocation :: string
  workgroup :: string
  pollFrequency :: nat
  resultMode :: ResultMode
  timeout :: nat
  catalog :: string

definition isCreatingCTASTable :: "bool \<Rightarrow> ResultMode \<Rightarrow> bool" where
  "isCreatingCTASTable isSelect rm = (isSelect \<and> rm = ResultModeGzipDL)"

definition isValidResultMode :: "ResultMode \<Rightarrow> bool" where
  "isValidResultMode mode =
     (case mode of
        ResultModeAPI \<Rightarrow> True
      | ResultModeDL \<Rightarrow> True
      | ResultModeGzipDL \<Rightarrow> True
      | _ \<Rightarrow> False)"

subsection \<open>The remote engine as a scripted world\<close>

text \<open>
  The Athena client is the outside world. A \<open>world\<close> holds the trace of the
  requests made so far, in order, and the replies the engine will give to the
  requests to come. A call for which the world holds no further reply does not
  return in that scenario: its outcome is \<open>Pending\<close>.

  A reply to \<^verbatim>\<open>StartQueryExecution\<close> is an error or the field
  \<^verbatim>\<open>QueryExecutionId\<close>, a pointer (\<open>None\<close> is nil). A reply to
  \<^verbatim>\<open>GetQueryExecution\<close> is an error or the status found behind the pointers
  \<^verbatim>\<open>QueryExecution.Status\<close> (\<open>None\<close> when one of them is nil). The outcome of
  each \<^verbatim>\<open>select\<close> of the polling loop is scripted too: the timer fired, or the
  context was done, with the value of \<^verbatim>\<open>ctx.Err()\<close>.

  A call of \<^verbatim>\<open>StopQueryExecution\<close> is recorded with the state of the context that
  it is given: \<open>None\<close> for a context that is live, \<open>Some e\<close> for a context that is
  already done, with \<^verbatim>\<open>ctx.Err() = e\<close>. The client of the SDK sends nothing for a
  context that is done: the call returns the error of the context at once, so
  such a call is an attempt that does not reach the engine.
\<close>

datatype 'a outcome = Pending | Panics panic | Fails error | Returns 'a

record StartQueryExecutionInput =
  QueryString :: string
  Database :: string
  CatalogName :: "string option"
  ResultOutputLocation :: string
  WorkGroup :: string

datatype call =
    StartQueryExecution StartQueryExecutionInput
  | GetQueryExecution string
  | StopQueryExecution "error option" string
  | Sleep nat

datatype QueryExecutionState = Queued | Running | Succeeded | Failed | Cancelled | OtherState string

record QueryExecutionStatus =
  State :: QueryExecutionState
  StateChangeReason :: "string option"

datatype select_outcome = TimerFired | CtxDone error

record world =
  trace :: "call list"
  startReplies :: "(error + string option) list"
  getReplies :: "(error + QueryExecutionStatus option) list"
  selectOutcomes :: "select_outcome list"
  uuidCount :: nat

subsection \<open>\<^verbatim>\<open>startQuery\<close>, \<^verbatim>\<open>waitOnQuery\<close>, \<^verbatim>\<open>dropCTASTable\<close>\<close>

definition startQuery :: "conn \<Rightarrow> Context \<Rightarrow> string \<Rightarrow> world \<Rightarrow> string outcome \<times> world" where
  "startQuery c ctx query w =
     (let cat = (case getCatalog ctx of Some cat' \<Rightarrow> cat' | None \<Rightarrow> catalog c);
          catalogPtr = (if cat \<noteq> [] then Some cat else None);
          input = \<lparr>QueryString = query, Database = db c, CatalogName = catalogPtr,
                    ResultOutputLocation = OutputLocation c, WorkGroup = workgroup c\<rparr>
      in case startReplies w of
           [] \<Rightarrow> (Pending, w)
         | rep # reps \<Rightarrow>
             let w' = w\<lparr>trace := trace w @ [StartQueryExecution input], startReplies := reps\<rparr>
             in (case rep of
                   Inl err \<Rightarrow> (Fails err, w')
                 | Inr None \<Rightarrow> (Panics NilDereference, w')
                 | Inr (Some queryID) \<Rightarrow> (Returns queryID, w')))"

function waitOnQuery :: "conn \<Rightarrow> Context \<Rightarrow> string \<Rightarrow> world \<Rightarrow> unit outcome \<times> world" where
  "waitOnQuery c ctx queryID w =
     (case getReplies w of
        [] \<Rightarrow> (Pending, w)
      | rep # reps \<Rightarrow>
          let w1 = w\<lparr>trace := trace w @ [GetQueryExecution queryID], getReplies := reps\<rparr>
          in (case rep of
                Inl err \<Rightarrow> (Fails err, w1)
              | Inr None \<Rightarrow> (Panics NilDereference, w1)
              | Inr (Some st) \<Rightarrow>
                  (case State st of
                     Cancelled \<Rightarrow> (Fails Canceled, w1)
                   | Failed \<Rightarrow>
                       (case StateChangeReason st of
                          None \<Rightarrow> (Panics NilDereference, w1)
                        | Some reason \<Rightarrow> (Fails (ErrorString reason), w1))
                   | Succeeded \<Rightarrow> (Returns (), w1)
                   | _ \<Rightarrow>
                       (case selectOutcomes w1 of
                          [] \<Rightarrow> (Pending, w1)
                        | CtxDone ctxErr # sels \<Rightarrow>
                            (Fails ctxErr,
                             w1\<lparr>trace := trace w1 @ [StopQueryExecution (Some ctxErr) queryID],
                                selectOutcomes := sels\<rparr>)
                        | TimerFired # sels \<Rightarrow>
                            waitOnQuery c ctx queryID
                              (w1\<lparr>trace := trace w1 @ [Sleep (pollFrequency c)],
                                  selectOutcomes := sels\<rparr>)))))"
  by pat_completeness auto
termination
  by (relation "measure (\<lambda>(c, ctx, queryID, w). length (getReplies w))") auto

declare waitOnQuery.simps [simp del]

definition dropCTASTable :: "conn \<Rightarrow> Context \<Rightarrow> string \<Rightarrow> world \<Rightarrow> unit outcome \<times> world" where
  "dropCTASTable c ctx table w =
     (let query = ''DROP TABLE '' @ table
      in case startQuery c ctx query w of
           (Returns queryID, w') \<Rightarrow> waitOnQuery c ctx queryID w'
         | (Pending, w') \<Rightarrow> (Pending, w')
         | (Panics p, w') \<Rightarrow> (Panics p, w')
         | (Fails err, w') \<Rightarrow> (Fails err, w'))"

subsection \<open>\<^verbatim>\<open>runQuery\<close> and \<^verbatim>\<open>prepareContext\<close>\<close>

text \<open>
  Go's \<^verbatim>\<open>if err != nil { return nil, err }\<close> after a call that threads the world.
\<close>

definition and_then ::
  "'a outcome \<times> world \<Rightarrow> ('a \<Rightarrow> world \<Rightarrow> 'b outcome \<times> world) \<Rightarrow> 'b outcome \<times> world" where
  "and_then m f =
     (case m of
        (Returns x, w) \<Rightarrow> f x w
      | (Pending, w) \<Rightarrow> (Pending, w)
      | (Panics p, w) \<Rightarrow> (Panics p, w)
      | (Fails err, w) \<Rightarrow> (Fails err, w))"

text \<open>
  Modelled from the spec: \<^verbatim>\<open>checkOutputLocation\<close> and \<^verbatim>\<open>getOutputLocation\<close> are
  declared outside conn.go and rows_gzip.go (the spec: the output location may be resolved
  from the workgroup settings when it is empty, the responsibility of an external
  collaborator), and \<^verbatim>\<open>uuid.NewV4\<close> is a library. They are parameters:
  \<open>getOutputLocation\<close> returns its string and its error, \<open>NewV4 n\<close> is the text of
  the \<open>n\<close>-th identifier drawn.
\<close>

record externals =
  checkOutputLocation :: "ResultMode \<Rightarrow> string \<Rightarrow> bool"
  getOutputLocation :: "string \<Rightarrow> string \<times> error option"
  NewV4 :: "nat \<Rightarrow> string"

text \<open>
  The configuration that \<^verbatim>\<open>runQuery\<close> hands to \<^verbatim>\<open>newRows\<close> (the client and the
  AWS configuration, opaque handles, are left out). \<open>AfterDownload\<close> is a function
  value, \<open>None\<close> when nil.
\<close>

record rowsConfig =
  QueryID :: string
  SkipHeader :: bool
  ResultMode :: ResultMode
  OutputLocation :: string
  Timeout :: nat
  AfterDownload :: "(world \<Rightarrow> unit outcome \<times> world) option"
  CTASTable :: string
  DB :: string
  Catalog :: string

text \<open>
  The result mode of \<^verbatim>\<open>runQuery\<close> (its first statements, up to the forcing of the
  API mode): the connection's mode, replaced by the override of the context when
  there is one, which is validated; then the API mode when the query is not a SELECT.
\<close>

definition runQuery_resultMode :: "conn \<Rightarrow> Context \<Rightarrow> string \<Rightarrow> error + ResultMode" where
  "runQuery_resultMode c ctx query =
     (let isSelect = isSelectQuery query
      in case (case getResultMode ctx of
                 Some rmode \<Rightarrow>
                   if \<not> isValidResultMode rmode then Inl ErrInvalidResultMode else Inr rmode
               | None \<Rightarrow> Inr (resultMode c)) of
           Inl err \<Rightarrow> Inl err
         | Inr rm \<Rightarrow> Inr (if \<not> isSelect then ResultModeAPI else rm))"

text \<open>The same statements of \<^verbatim>\<open>prepareContext\<close>, where the override is not validated.\<close>

definition prepareContext_resultMode :: "conn \<Rightarrow> Context \<Rightarrow> string \<Rightarrow> ResultMode" where
  "prepareContext_resultMode c ctx query =
     (let isSelect = isSelectQuery query;
          rm = (case getResultMode ctx of Some rmode \<Rightarrow> rmode | None \<Rightarrow> resultMode c)
      in if \<not> isSelect then ResultModeAPI else rm)"

text \<open>
  The CTAS rewrite shared by both functions: the name of the temporary table, the
  rewritten query, the cleanup, and the world after one identifier was drawn.
\<close>

definition ctas_rewrite ::
  "externals \<Rightarrow> conn \<Rightarrow> Context \<Rightarrow> string \<Rightarrow> world
     \<Rightarrow> string \<times> string \<times> (world \<Rightarrow> unit outcome \<times> world) option \<times> world" where
  "ctas_rewrite ext c ctx query w =
     (let ctasTable = ''tmp_ctas_'' @ filter (\<lambda>ch. ch \<noteq> CHR ''-'') (NewV4 ext (uuidCount w));
          query' = ''CREATE TABLE '' @ ctasTable @ '' WITH (format='TEXTFILE') AS '' @ query
      in (ctasTable, query', Some (dropCTASTable c ctx ctasTable),
          w\<lparr>uuidCount := uuidCount w + 1\<rparr>))"

text \<open>
  \<^verbatim>\<open>runQuery\<close> returns the configuration for \<^verbatim>\<open>newRows\<close> (declared outside conn.go and
  rows_gzip.go), the connection, whose output location it may assign, and the world.
\<close>

definition runQuery ::
  "externals \<Rightarrow> conn \<Rightarrow> Context \<Rightarrow> string \<Rightarrow> world \<Rightarrow> rowsConfig outcome \<times> conn \<times> world" where
  "runQuery ext c ctx query w =
     (let isSelect = isSelectQuery query
      in case runQuery_resultMode c ctx query of
           Inl err \<Rightarrow> (Fails err, c, w)
         | Inr rm \<Rightarrow>
             let timeout' = (case getTimeout ctx of Some to \<Rightarrow> to | None \<Rightarrow> timeout c);
                 catalog' = (case getCatalog ctx of Some cat \<Rightarrow> cat | None \<Rightarrow> catalog c);
                 located =
                   (if checkOutputLocation ext rm (conn.OutputLocation c)
                    then (c\<lparr>conn.OutputLocation := fst (getOutputLocation ext (workgroup c))\<rparr>,
                          snd (getOutputLocation ext (workgroup c)))
                    else (c, None))
             in (case located of
                   (c1, Some err) \<Rightarrow> (Fails err, c1, w)
                 | (c1, None) \<Rightarrow>
                     let (ctasTable, query', afterDownload, w1) =
                           (if isCreatingCTASTable isSelect rm then ctas_rewrite ext c1 ctx query w
                            else ([], query, None, w));
                         (r, w3) =
                           and_then (startQuery c1 ctx query' w1) (\<lambda>queryID w2.
                           and_then (waitOnQuery c1 ctx queryID w2) (\<lambda>_ w3.
                             (Returns \<lparr>QueryID = queryID, SkipHeader = \<not> isDDLQuery query',
                                       ResultMode = rm,
                                       OutputLocation = conn.OutputLocation c1,
                                       Timeout = timeout', AfterDownload = afterDownload,
                                       CTASTable = ctasTable, DB = db c1,
                                       Catalog = catalog'\<rparr>, w3)))
                     in (r, c1, w3)))"

text \<open>The statement that \<^verbatim>\<open>prepareContext\<close> returns (the connection pointer left out).\<close>

record stmtAthena =
  prepareKey :: string
  numInput :: nat
  ctasTable :: string
  afterDownload :: "(world \<Rightarrow> unit outcome \<times> world) option"
  stmtResultMode :: ResultMode

definition prepareContext ::
  "externals \<Rightarrow> conn \<Rightarrow> Context \<Rightarrow> string \<Rightarrow> world \<Rightarrow> stmtAthena outcome \<times> world" where
  "prepareContext ext c ctx query w =
     (let isSelect = isSelectQuery query;
          rm = prepareContext_resultMode c ctx query;
          (ctasTable', query', afterDownload', w1) =
            (if isCreatingCTASTable isSelect rm then ctas_rewrite ext c ctx query w
             else ([], query, None, w));
          numInput' = length (filter (\<lambda>ch. ch = CHR ''?'') query');
          prepareKey' = ''tmp_prepare_'' @ filter (\<lambda>ch. ch \<noteq> CHR ''-'') (NewV4 ext (uuidCount w1));
          w2 = w1\<lparr>uuidCount := uuidCount w1 + 1\<rparr>;
          newQuery = ''PREPARE '' @ prepareKey' @ '' FROM '' @ query'
      in and_then (startQuery c ctx newQuery w2) (\<lambda>queryID w3.
         and_then (waitOnQuery c ctx queryID w3) (\<lambda>_ w4.
           (Returns \<lparr>prepareKey = prepareKey', numInput = numInput', ctasTable = ctasTable',
                     afterDownload = afterDownload', stmtResultMode = rm\<rparr>, w4))))"

subsection \<open>Vocabulary for the statements about polling\<close>

text \<open>
  A status is non-terminal when \<^verbatim>\<open>waitOnQuery\<close>'s \<^verbatim>\<open>switch\<close> does not return on
  it; \<open>polled queryID d n\<close> is the trace of \<open>n\<close> rounds of one status check and one
  sleep of \<open>d\<close>; \<open>is_stop\<close> recognises a call of \<^verbatim>\<open>StopQueryExecution\<close>,
  \<open>stop_sent\<close> one that the client sends to the engine (its context is live),
  \<open>is_poll\<close> a status check;
  \<open>status s\<close> is a reply with state \<open>s\<close> and no reason. The examples use
  \<open>conn0\<close>, a connection with the defaults, \<open>ctx0\<close>, a context without
  overrides, and \<open>world0\<close>, the world with an empty trace and no reply.
\<close>

definition non_terminal :: "QueryExecutionStatus \<Rightarrow> bool" where
  "non_terminal st = (State st \<noteq> Cancelled \<and> State st \<noteq> Failed \<and> State st \<noteq> Succeeded)"

definition polled :: "string \<Rightarrow> nat \<Rightarrow> nat \<Rightarrow> call list" where
  "polled queryID d n = concat (replicate n [GetQueryExecution queryID, Sleep d])"

definition is_stop :: "call \<Rightarrow> bool" where
  "is_stop x = (case x of StopQueryExecution c q \<Rightarrow> True | _ \<Rightarrow> False)"

definition stop_sent :: "call \<Rightarrow> bool" where
  "stop_sent x = (case x of StopQueryExecution None q \<Rightarrow> True | _ \<Rightarrow> False)"

definition is_poll :: "call \<Rightarrow> bool" where
  "is_poll x = (case x of GetQueryExecution _ \<Rightarrow> True | _ \<Rightarrow> False)"

definition status :: "QueryExecutionState \<Rightarrow> error + QueryExecutionStatus option" where
  "status s = Inr (Some \<lparr>State = s, StateChangeReason = None\<rparr>)"

definition conn0 :: conn where
  "conn0 = \<lparr>db = ''default'', OutputLocation = ''s3://results'', workgroup = ''primary'',
             pollFrequency = 5, resultMode = ResultModeAPI, timeout = 1800, catalog = []\<rparr>"

definition ctx0 :: Context where
  "ctx0 = \<lparr>resultModeValue = None, timeoutValue = None, catalogValue = None\<rparr>"

definition world0 :: world where
  "world0 = \<lparr>trace = [], startReplies = [], getReplies = [], selectOutcomes = [], uuidCount = 0\<rparr>"

text \<open>
  For the examples about the query path: \<open>ext0\<close> never resolves the output
  location and draws one fixed identifier; \<open>world1\<close> accepts one query and reports
  it Succeeded at the first status check; \<open>connDL\<close> has the Direct-Download
  mode as its default and \<open>ctxGzip\<close> overrides the mode with Compressed-Download;
  \<open>ctxBad\<close> carries a result mode outside the enumeration.
\<close>

definition ext0 :: externals where
  "ext0 = \<lparr>checkOutputLocation = (\<lambda>rm loc. False),
            getOutputLocation = (\<lambda>wg. ([], None)),
            NewV4 = (\<lambda>n. ''6ba7b810-9dad-11d1-80b4-00c04fd430c8'')\<rparr>"

definition world1 :: world where
  "world1 = world0\<lparr>startReplies := [Inr (Some ''q1'')], getReplies := [status Succeeded]\<rparr>"

definition connDL :: conn where
  "connDL = conn0\<lparr>resultMode := ResultModeDL\<rparr>"

definition ctxGzip :: Context where
  "ctxGzip = ctx0\<lparr>resultModeValue := Some ResultModeGzipDL\<rparr>"

definition ctxBad :: Context where
  "ctxBad = ctx0\<lparr>resultModeValue := Some (ResultModeOther 7)\<rparr>"

section \<open>The compressed download (rows_gzip.go)\<close>

subsection \<open>Readers\<close>

text \<open>
  An \<^verbatim>\<open>io.Reader\<close> is the list of the chunks that it has ready for its calls of
  \<^verbatim>\<open>Read\<close>: the bytes of the chunk, and the error that \<^verbatim>\<open>Read\<close> returns together
  with the last byte of the chunk (\<open>None\<close> is nil). A call with room for \<open>n\<close> bytes
  delivers the next chunk, or its first \<open>n\<close> bytes when it is longer; after the last
  chunk every call returns \<^verbatim>\<open>io.EOF\<close>. So \<^verbatim>\<open>strings.NewReader\<close> is one chunk
  without an error, and reports the end in a call of its own, while a gzip reader
  delivers its last bytes together with \<^verbatim>\<open>io.EOF\<close>, or together with the error of
  a bad checksum or of a stream that is cut.
\<close>

type_synonym Reader = "(string \<times> error option) list"

definition NewReader :: "string \<Rightarrow> Reader" where
  "NewReader s = (if s = [] then [] else [(s, None)])"

fun Read :: "nat \<Rightarrow> Reader \<Rightarrow> string \<times> error option \<times> Reader" where
  "Read n [] = ([], Some EOF, [])"
| "Read n ((bs, e) # rest) =
     (if length bs \<le> n then (bs, e, rest) else (take n bs, None, (drop n bs, e) # rest))"

fun ReadAll_loop :: "Reader \<Rightarrow> string \<Rightarrow> error + string" where
  "ReadAll_loop [] b = Inr b"
| "ReadAll_loop ((bs, e) # rest) b =
     (case e of
        None \<Rightarrow> ReadAll_loop rest (b @ bs)
      | Some err \<Rightarrow> if err = EOF then Inr (b @ bs) else Inl err)"

definition ReadAll :: "Reader \<Rightarrow> error + string" where
  "ReadAll body = ReadAll_loop body []"

subsection \<open>\<^verbatim>\<open>bufio.Scanner\<close> with \<^verbatim>\<open>ScanLines\<close>\<close>

text \<open>
  \<open>ScanLines\<close> is the split function: \<open>None\<close> asks for more bytes, otherwise it
  gives the number of bytes to advance and the token, a line without its newline and
  without one trailing carriage return. \<open>read_more\<close> is the loop of the scanner that
  reads until it gets bytes or an error, and gives up after too many empty reads.
  \<open>Scan\<close> is \<^verbatim>\<open>Scanner.Scan\<close>: the scanner holds its reader, the bytes of its
  buffer between \<^verbatim>\<open>start\<close> and \<^verbatim>\<open>end\<close>, the offset \<^verbatim>\<open>start\<close>, the length of the
  buffer and its error. One call looks for a token in the buffer; without one it
  returns false when the error is set, and otherwise moves the bytes to the front
  of the buffer, doubles the buffer when it is full (up to \<open>MaxScanTokenSize\<close>,
  where it fails with \<open>ErrTooLong\<close>), reads, and looks again. The result is the
  token, \<open>None\<close> when \<^verbatim>\<open>Scan\<close> returns false, and the scanner after the call.
  \<open>Err\<close> is \<^verbatim>\<open>Scanner.Err\<close>, which hides \<^verbatim>\<open>io.EOF\<close>.
\<close>

fun IndexByte :: "string \<Rightarrow> char \<Rightarrow> nat option" where
  "IndexByte [] c = None"
| "IndexByte (x # xs) c = (if x = c then Some 0 else map_option Suc (IndexByte xs c))"

definition dropCR :: "string \<Rightarrow> string" where
  "dropCR bs = (if bs \<noteq> [] \<and> last bs = CHR 0x0D then butlast bs else bs)"

definition ScanLines :: "string \<Rightarrow> bool \<Rightarrow> (nat \<times> string) option" where
  "ScanLines bs atEOF =
     (if atEOF \<and> bs = [] then None
      else case IndexByte bs (CHR 0x0A) of
             Some i \<Rightarrow> Some (i + 1, dropCR (take i bs))
           | None \<Rightarrow> if atEOF then Some (length bs, dropCR bs) else None)"

definition MaxScanTokenSize :: nat where
  "MaxScanTokenSize = 65536"

definition startBufSize :: nat where
  "startBufSize = 4096"

definition maxConsecutiveEmptyReads :: nat where
  "maxConsecutiveEmptyReads = 100"

function read_more :: "nat \<Rightarrow> nat \<Rightarrow> Reader \<Rightarrow> string \<times> error option \<times> Reader" where
  "read_more loop n rd =
     (case Read n rd of
        (bs, Some err, rd') \<Rightarrow> (bs, Some err, rd')
      | (bs, None, rd') \<Rightarrow>
          if bs \<noteq> [] then (bs, None, rd')
          else if maxConsecutiveEmptyReads < loop + 1 then ([], Some ErrNoProgress, rd')
          else read_more (loop + 1) n rd')"
  by pat_completeness auto
termination
  by (relation "measure (\<lambda>(loop, n, rd). Suc maxConsecutiveEmptyReads - loop)") auto

declare read_more.simps [simp del]

record Scanner =
  sc_r :: Reader
  sc_buf :: string
  sc_start :: nat
  sc_cap :: nat
  sc_err :: "error option"

definition NewScanner :: "Reader \<Rightarrow> Scanner" where
  "NewScanner r = \<lparr>sc_r = r, sc_buf = [], sc_start = 0, sc_cap = 0, sc_err = None\<rparr>"

definition reader_size :: "Reader \<Rightarrow> nat" where
  "reader_size rd = sum_list (map (\<lambda>(bs, e). Suc (length bs)) rd)"

definition reader_bytes :: "Reader \<Rightarrow> nat" where
  "reader_bytes rd = sum_list (map (\<lambda>(bs, e). length bs) rd)"

function Scan :: "Scanner \<Rightarrow> string option \<times> Scanner" where
  "Scan s =
     (case (if sc_buf s \<noteq> [] \<or> sc_err s \<noteq> None
            then ScanLines (sc_buf s) (sc_err s \<noteq> None) else None) of
        Some (advance, token) \<Rightarrow>
          (Some token, s\<lparr>sc_buf := drop advance (sc_buf s), sc_start := sc_start s + advance\<rparr>)
      | None \<Rightarrow>
          if sc_err s \<noteq> None then (None, s\<lparr>sc_buf := [], sc_start := 0\<rparr>)
          else
            let start1 = (if 0 < sc_start s
                             \<and> (sc_start s + length (sc_buf s) = sc_cap s
                                  \<or> sc_cap s div 2 < sc_start s)
                          then 0 else sc_start s);
                full = (start1 + length (sc_buf s) = sc_cap s)
            in if full \<and> MaxScanTokenSize \<le> sc_cap s
               then (None, s\<lparr>sc_start := start1, sc_err := Some ErrTooLong\<rparr>)
               else
                 let cap1 = (if full
                             then min (if sc_cap s * 2 = 0 then startBufSize else sc_cap s * 2)
                                    MaxScanTokenSize
                             else sc_cap s);
                     start2 = (if full then 0 else start1);
                     got = read_more 0 (cap1 - (start2 + length (sc_buf s))) (sc_r s)
                 in Scan (s\<lparr>sc_r := snd (snd got), sc_buf := sc_buf s @ fst got,
                            sc_start := start2, sc_cap := cap1, sc_err := fst (snd got)\<rparr>))"
  by pat_completeness auto
termination
proof (relation "measure (\<lambda>s. 2 * reader_size (sc_r s) + (if sc_err s = None then 1 else 0))")
  show "wf (measure (\<lambda>s. 2 * reader_size (sc_r s) + (if sc_err s = None then 1 else 0)))"
    by simp
next
  fix s :: Scanner and start1 full cap1 start2 got
  assume noerr: "\<not> sc_err s \<noteq> None"
    and got: "got = read_more 0 (cap1 - (start2 + length (sc_buf s))) (sc_r s)"
  have rd: "reader_size (snd (snd (Read n rd))) \<le> reader_size rd
        \<and> (fst (snd (Read n rd)) = None \<and> fst (Read n rd) \<noteq> []
             \<longrightarrow> reader_size (snd (snd (Read n rd))) < reader_size rd)" for n rd
    by (cases rd) (auto simp: reader_size_def)
  have P: "reader_size (snd (snd (read_more k n rd))) \<le> reader_size rd
        \<and> (fst (snd (read_more k n rd)) = None
             \<longrightarrow> reader_size (snd (snd (read_more k n rd))) < reader_size rd)" for k n rd
  proof (induction k n rd rule: read_more.induct)
    case (1 loop n rd)
    obtain bs e rd' where r: "Read n rd = (bs, e, rd')" by (cases "Read n rd") auto
    from rd [of n rd] r have le: "reader_size rd' \<le> reader_size rd"
      and lt: "e = None \<Longrightarrow> bs \<noteq> [] \<Longrightarrow> reader_size rd' < reader_size rd"
      by auto
    show ?case
    proof (cases e)
      case (Some err)
      with r le show ?thesis by (subst (1 2 3) read_more.simps) simp
    next
      case None
      show ?thesis
      proof (cases "bs \<noteq> []")
        case True
        with r None lt show ?thesis by (subst (1 2 3) read_more.simps) simp
      next
        case False
        show ?thesis
        proof (cases "maxConsecutiveEmptyReads < loop + 1")
          case True
          with r None False le show ?thesis by (subst (1 2 3) read_more.simps) simp
        next
          case nl: False
          have ih: "reader_size (snd (snd (read_more (loop + 1) n rd'))) \<le> reader_size rd'
             \<and> (fst (snd (read_more (loop + 1) n rd')) = None
                 \<longrightarrow> reader_size (snd (snd (read_more (loop + 1) n rd'))) < reader_size rd')"
            using "1.IH" [OF r [symmetric] refl _ _ nl] None False by simp
          have eq: "read_more loop n rd = read_more (loop + 1) n rd'"
            using r None False nl by (subst read_more.simps) simp
          show ?thesis unfolding eq using ih le by auto
        qed
      qed
    qed
  qed
  show "(s\<lparr>sc_r := snd (snd got), sc_buf := sc_buf s @ fst got, sc_start := start2,
            sc_cap := cap1, sc_err := fst (snd got)\<rparr>, s)
        \<in> measure (\<lambda>s. 2 * reader_size (sc_r s) + (if sc_err s = None then 1 else 0))"
    using noerr P [of 0 "cap1 - (start2 + length (sc_buf s))" "sc_r s"] got
    by auto
qed

declare Scan.simps [simp del]


definition Err :: "Scanner \<Rightarrow> error option" where
  "Err s = (case sc_err s of Some err \<Rightarrow> (if err = EOF then None else Some err) | None \<Rightarrow> None)"

text \<open>
  Both functions of rows_gzip.go that scan have the same loop,
  \<^verbatim>\<open>for scanner.Scan() { if err := scanner.Err(); err != nil { return nil, err }; ... }\<close>,
  followed by the return of what was collected: \<open>for_each_token\<close> is that loop,
  with the rest of its body as a parameter. The error of the scanner is not read
  after the loop, so \<open>ErrTooLong\<close> ends the loop without an error.
\<close>

definition pending_bytes :: "Scanner \<Rightarrow> nat" where
  "pending_bytes s = length (sc_buf s) + reader_bytes (sc_r s)"



function for_each_token :: "Scanner \<Rightarrow> (string \<Rightarrow> 'a \<Rightarrow> 'a) \<Rightarrow> 'a \<Rightarrow> error + 'a" where
  "for_each_token scanner body acc =
     (case Scan scanner of
        (None, scanner') \<Rightarrow> Inr acc
      | (Some token, scanner') \<Rightarrow>
          (case Err scanner' of
             Some err \<Rightarrow> Inl err
           | None \<Rightarrow> for_each_token scanner' body (body token acc)))"
  by pat_completeness auto
termination
proof (relation "measure (\<lambda>(scanner, body, acc). pending_bytes scanner)")
  show "wf (measure (\<lambda>(scanner, body, acc). pending_bytes scanner))" by simp
next
  fix scanner :: Scanner and body :: "string \<Rightarrow> 'a \<Rightarrow> 'a" and acc :: 'a
    and x1 scanner' tok
  assume "(x1, scanner') = Scan scanner" and "x1 = Some tok"
  then have sc: "Scan scanner = (Some tok, scanner')" by simp
  have rd: "length (fst (Read n rd)) + reader_bytes (snd (snd (Read n rd))) = reader_bytes rd"
    for n rd
    by (cases rd) (auto simp: reader_bytes_def)
  have R: "length (fst (read_more j n rd)) + reader_bytes (snd (snd (read_more j n rd)))
           = reader_bytes rd" for j n rd
  proof (induction j n rd rule: read_more.induct)
    case (1 loop n rd)
    obtain bs e rd' where r: "Read n rd = (bs, e, rd')" by (cases "Read n rd") auto
    from rd [of n rd] r have c: "length bs + reader_bytes rd' = reader_bytes rd" by simp
    show ?case
    proof (cases "e = None \<and> bs = [] \<and> \<not> maxConsecutiveEmptyReads < loop + 1")
      case True
      then have eq: "read_more loop n rd = read_more (loop + 1) n rd'"
        using r by (subst read_more.simps) simp
      have "length (fst (read_more (loop + 1) n rd'))
              + reader_bytes (snd (snd (read_more (loop + 1) n rd'))) = reader_bytes rd'"
        using "1.IH" [OF r [symmetric] refl] True by simp
      with c True show ?thesis unfolding eq by simp
    next
      case False
      with r c show ?thesis
        by (subst (1 2) read_more.simps) (auto split: option.splits)
    qed
  qed
  have Q: "fst (Scan s) \<noteq> None \<longrightarrow> pending_bytes (snd (Scan s)) < pending_bytes s" for s
  proof (induction s rule: Scan.induct)
    case (1 s)
    let ?sl = "if sc_buf s \<noteq> [] \<or> sc_err s \<noteq> None
               then ScanLines (sc_buf s) (sc_err s \<noteq> None) else None"
    show ?case
    proof (cases ?sl)
      case (Some at)
      obtain advance token where at: "at = (advance, token)" by (cases at) auto
      from Some at have sl: "ScanLines (sc_buf s) (sc_err s \<noteq> None) = Some (advance, token)"
        by (auto split: if_splits)
      have ix: "IndexByte bs c = Some i \<Longrightarrow> i < length bs" for bs c i
        by (induction bs arbitrary: i) (auto split: if_splits)
      from sl have "0 < advance \<and> advance \<le> length (sc_buf s)"
        by (auto simp: ScanLines_def split: if_splits option.splits dest: ix)
      then have less: "length (drop advance (sc_buf s)) < length (sc_buf s)"
        by (simp only: length_drop) arith
      have e: "Scan s = (Some token,
          s\<lparr>sc_buf := drop advance (sc_buf s), sc_start := sc_start s + advance\<rparr>)"
        by (subst Scan.simps, simp only: Some at option.case prod.case)
      have "pending_bytes (s\<lparr>sc_buf := drop advance (sc_buf s), sc_start := sc_start s + advance\<rparr>)
            < pending_bytes s"
        using less by (simp add: pending_bytes_def del: length_drop)
      then show ?thesis
        by (simp only: e fst_conv snd_conv) simp
    next
      case None
      show ?thesis
      proof (cases "sc_err s \<noteq> None")
        case True
        then have ne: "(sc_err s \<noteq> None) = True" by simp
        have "Scan s = (None, s\<lparr>sc_buf := [], sc_start := 0\<rparr>)"
          by (subst Scan.simps, simp only: None option.case, simp only: ne if_True)
        then show ?thesis by simp
      next
        case noerr: False
        define start1 where "start1 = (if 0 < sc_start s
                             \<and> (sc_start s + length (sc_buf s) = sc_cap s
                                  \<or> sc_cap s div 2 < sc_start s)
                          then 0 else sc_start s)"
        define full where "full = (start1 + length (sc_buf s) = sc_cap s)"
        show ?thesis
        proof (cases "full \<and> MaxScanTokenSize \<le> sc_cap s")
          case True
          from noerr have ne: "(sc_err s \<noteq> None) = False" by simp
          from True have t: "(full \<and> MaxScanTokenSize \<le> sc_cap s) = True" by simp
          have "Scan s = (None, s\<lparr>sc_start := start1, sc_err := Some ErrTooLong\<rparr>)"
            by (subst Scan.simps, simp only: None option.case, simp only: ne if_False,
                simp only: Let_def, fold start1_def, fold full_def, simp only: t if_True)
          then show ?thesis by simp
        next
          case nf: False
          define cap1 where "cap1 = (if full
                             then min (if sc_cap s * 2 = 0 then startBufSize else sc_cap s * 2)
                                    MaxScanTokenSize
                             else sc_cap s)"
          define start2 where "start2 = (if full then 0 else start1)"
          define got where "got = read_more 0 (cap1 - (start2 + length (sc_buf s))) (sc_r s)"
          define s' where "s' = s\<lparr>sc_r := snd (snd got), sc_buf := sc_buf s @ fst got,
                            sc_start := start2, sc_cap := cap1, sc_err := fst (snd got)\<rparr>"
          from noerr have ne: "(sc_err s \<noteq> None) = False" by simp
          from nf have nf': "(full \<and> MaxScanTokenSize \<le> sc_cap s) = False" by simp
          have eq: "Scan s = Scan s'"
            by (subst Scan.simps, simp only: None option.case, simp only: ne if_False,
                simp only: Let_def, fold start1_def, fold full_def, simp only: nf' if_False,
                fold cap1_def, fold start2_def, fold got_def, fold s'_def, rule refl)
          have ih: "fst (Scan s') \<noteq> None \<longrightarrow> pending_bytes (snd (Scan s')) < pending_bytes s'"
            unfolding s'_def got_def start2_def cap1_def
            using nf noerr None
            by (intro "1.IH" [where x = start1 and xa = full]) (simp_all add: full_def start1_def)
          have "pending_bytes s' = pending_bytes s"
            using R [of 0 "cap1 - (start2 + length (sc_buf s))" "sc_r s"]
            by (simp add: pending_bytes_def s'_def got_def)
          with ih eq show ?thesis by simp
        qed
      qed
    qed
  qed
  from Q [of scanner] sc
  show "((scanner', body, body tok acc), (scanner, body, acc))
        \<in> measure (\<lambda>(scanner, body, acc). pending_bytes scanner)"
    by simp
qed


declare for_each_token.simps [simp del]


subsection \<open>\<^verbatim>\<open>getObjectKeysForGzip\<close> and \<^verbatim>\<open>getRecordsFromGzip\<close>\<close>

definition getObjectKeysForGzip :: "Reader \<Rightarrow> int \<Rightarrow> error + string list" where
  "getObjectKeysForGzip reader start =
     for_each_token (NewScanner reader)
       (\<lambda>text keys.
          let k = (if 0 < start \<and> start < int (length text) then drop (nat start) text
                   else text)
          in keys @ [k]) []"

text \<open>
  The inner loop of \<^verbatim>\<open>getRecordsFromGzip\<close>, which cuts the bytes \<open>b\<close> of one
  line into fields at the rune U+0001.
\<close>

function getRecordsFromGzip_record :: "string \<Rightarrow> string \<Rightarrow> string list \<Rightarrow> string list" where
  "getRecordsFromGzip_record b field record =
     (let r = fst (DecodeRune b);
          width = snd (DecodeRune b);
          record' = (if r = 1 then record @ [field] else record);
          field' = (if r = 1 then [] else field @ string_of_rune r)
      in if length b \<le> width then record' @ [field']
         else getRecordsFromGzip_record (drop width b) field' record')"
  by pat_completeness auto
termination
proof (relation "measure (\<lambda>(b, field, record). length b)")
  fix b :: string and fld :: string and rcd :: "string list"
    and r width rcd' fld'
  assume w: "width = snd (DecodeRune b)" and lt: "\<not> length b \<le> width"
  from lt have "b \<noteq> []" by auto
  then have "0 < snd (DecodeRune b)"
    by (cases b) (auto simp: DecodeRune_def Let_def split: option.splits)
  with w lt show "((drop width b, fld', rcd'), (b, fld, rcd))
      \<in> measure (\<lambda>(b, field, record). length b)"
    by simp
qed simp

declare getRecordsFromGzip_record.simps [simp del]

definition getRecordsFromGzip :: "Reader \<Rightarrow> error + string list list" where
  "getRecordsFromGzip reader =
     for_each_token (NewScanner reader)
       (\<lambda>b records. records @ [getRecordsFromGzip_record b [] []]) []"

subsection \<open>The cursor \<^verbatim>\<open>rowsGzipDL\<close>\<close>

text \<open>
  Modelled from the spec: the type \<^verbatim>\<open>downloadedRows\<close> is declared outside conn.go and
  rows_gzip.go. The spec gives the downloaded row buffer as an ordered sequence of
  rows, each a sequence of string fields, and a cursor offset. The cursor starts at
  zero and is only ever incremented, so it is a natural number.
\<close>

record downloadedRows =
  data :: "string list list"
  cursor :: nat

text \<open>A column of the catalog (\<^verbatim>\<open>types.Column\<close>): two pointers to strings.\<close>

record Column =
  ColumnName :: "string option"
  ColumnType :: "string option"

text \<open>
  The cursor (the client, an opaque handle, is left out); \<open>downloadedRows\<close> is a
  pointer, \<open>None\<close> when nil.
\<close>

record rowsGzipDL =
  queryID :: string
  resultMode :: ResultMode
  downloadedRows :: "downloadedRows option"
  ctasTable :: string
  db :: string
  catalog :: string
  ctasTableColumns :: "Column list"

text \<open>
  The services that the cursor calls: the object store (\<^verbatim>\<open>GetObject\<close> with a
  bucket and a key gives an error or the body), \<^verbatim>\<open>gzip.NewReader\<close> (an error for
  a bad header, otherwise the reader of the decompressed bytes, which ends with
  \<^verbatim>\<open>io.EOF\<close> or with the error of the stream), and the catalog
  (\<^verbatim>\<open>GetTableMetadata\<close> with catalog, database and table gives an error or the
  columns behind the pointer \<^verbatim>\<open>TableMetadata\<close>, \<open>None\<close> when it is nil).
\<close>

record services =
  GetObject :: "string \<Rightarrow> string \<Rightarrow> error + Reader"
  gzipNewReader :: "string \<Rightarrow> error + Reader"
  GetTableMetadata :: "string \<Rightarrow> string \<Rightarrow> string \<Rightarrow> error + Column list option"

definition CATALOG_AWS_DATA_CATALOG :: string where
  "CATALOG_AWS_DATA_CATALOG = ''AwsDataCatalog''"

text \<open>
  The loop of \<^verbatim>\<open>downloadCompressedData\<close> over the object keys: each object is
  fetched, read, decompressed and decoded, and its rows are appended to the buffer,
  which is made at the first object when the pointer is nil.
\<close>

fun downloadCompressedData_loop ::
  "services \<Rightarrow> string \<Rightarrow> string list \<Rightarrow> rowsGzipDL \<Rightarrow> unit outcome \<times> rowsGzipDL" where
  "downloadCompressedData_loop env bucketName [] r = (Returns (), r)"
| "downloadCompressedData_loop env bucketName (objectKey # objectKeys) r =
     (case GetObject env bucketName objectKey of
        Inl err \<Rightarrow> (Fails err, r)
      | Inr body \<Rightarrow>
          (case ReadAll body of
             Inl err \<Rightarrow> (Fails err, r)
           | Inr bytes \<Rightarrow>
               (case gzipNewReader env bytes of
                  Inl err \<Rightarrow> (Fails err, r)
                | Inr gzipReader \<Rightarrow>
                    (case getRecordsFromGzip gzipReader of
                       Inl err \<Rightarrow> (Fails err, r)
                     | Inr datas \<Rightarrow>
                         let d = (case downloadedRows r of
                                    None \<Rightarrow> \<lparr>data = [], cursor = 0\<rparr>
                                  | Some d' \<Rightarrow> d')
                         in downloadCompressedData_loop env bucketName objectKeys
                              (r\<lparr>downloadedRows := Some (d\<lparr>data := data d @ datas\<rparr>)\<rparr>)))))"

text \<open>
  \<^verbatim>\<open>location[len(location)-1:]\<close> panics when the location is empty, and
  \<^verbatim>\<open>location[5:]\<close> when fewer than five bytes remain.
\<close>

definition downloadCompressedData ::
  "services \<Rightarrow> rowsGzipDL \<Rightarrow> string \<Rightarrow> unit outcome \<times> rowsGzipDL" where
  "downloadCompressedData env r location0 =
     (if length location0 < 1 then (Panics SliceBoundsOutOfRange, r)
      else
        let location = (if drop (length location0 - 1) location0 = ''/''
                        then take (length location0 - 1) location0 else location0)
        in if length location < 5 then (Panics SliceBoundsOutOfRange, r)
           else
             let bucketName = drop 5 location
             in (case GetObject env bucketName (''tables/'' @ queryID r @ ''-manifest.csv'') of
                   Inl err \<Rightarrow> (Fails err, r)
                 | Inr body \<Rightarrow>
                     (case ReadAll body of
                        Inl err \<Rightarrow> (Fails err, r)
                      | Inr bytes \<Rightarrow>
                          let start = int (length location) + 1
                          in (case getObjectKeysForGzip (NewReader bytes) start of
                                Inl err \<Rightarrow> (Fails err, r)
                              | Inr objectKeys \<Rightarrow>
                                  downloadCompressedData_loop env bucketName objectKeys r))))"

text \<open>\<^verbatim>\<open>getTableAsync\<close>: the outcome is the value sent on the channel.\<close>

definition getTableAsync :: "services \<Rightarrow> rowsGzipDL \<Rightarrow> unit outcome \<times> rowsGzipDL" where
  "getTableAsync env r =
     (let catalog' = (if catalog r = [] then CATALOG_AWS_DATA_CATALOG else catalog r)
      in case GetTableMetadata env catalog' (db r) (ctasTable r) of
           Inl err \<Rightarrow> (Fails err, r)
         | Inr None \<Rightarrow> (Panics NilDereference, r)
         | Inr (Some columns) \<Rightarrow> (Returns (), r\<lparr>ctasTableColumns := columns\<rparr>))"

subsection \<open>\<^verbatim>\<open>init\<close>: two concurrent fetches, then the cleanup\<close>

text \<open>
  \<^verbatim>\<open>init\<close> starts the download and the metadata fetch, then waits twice in a
  \<^verbatim>\<open>select\<close> for the deadline or for a result on the channel. The two tasks
  read and write different fields of the cursor, so running them in the order in
  which their results are received gives the state that the concurrent run gives.
  What each \<^verbatim>\<open>select\<close> observes is the schedule: which task reports first, and
  for each of the two rounds whether the deadline fired first, with the value of
  \<^verbatim>\<open>ctx.Err()\<close>. A task that panics ends the program, which the model shows as
  the outcome of the round that waits for it. The effects of a task whose result
  is never received are not part of the returned state.
\<close>

datatype task = TaskDownload | TaskGetTable

record schedule =
  firstTask :: task
  done0 :: "error option"
  done1 :: "error option"

definition run_task :: "services \<Rightarrow> rowsConfig \<Rightarrow> task \<Rightarrow> rowsGzipDL \<Rightarrow> unit outcome \<times> rowsGzipDL" where
  "run_task env cfg t r =
     (case t of
        TaskDownload \<Rightarrow> downloadCompressedData env r (OutputLocation cfg)
      | TaskGetTable \<Rightarrow> getTableAsync env r)"

definition other_task :: "task \<Rightarrow> task" where
  "other_task t = (case t of TaskDownload \<Rightarrow> TaskGetTable | TaskGetTable \<Rightarrow> TaskDownload)"

fun init_loop ::
  "services \<Rightarrow> rowsConfig \<Rightarrow> (error option \<times> task) list \<Rightarrow> rowsGzipDL
     \<Rightarrow> unit outcome \<times> rowsGzipDL" where
  "init_loop env cfg [] r = (Returns (), r)"
| "init_loop env cfg ((dn, t) # rounds) r =
     (case dn of
        Some ctxErr \<Rightarrow> (Fails ctxErr, r)
      | None \<Rightarrow>
          (case run_task env cfg t r of
             (Returns u, r') \<Rightarrow> init_loop env cfg rounds r'
           | (Pending, r') \<Rightarrow> (Pending, r')
           | (Panics p, r') \<Rightarrow> (Panics p, r')
           | (Fails e, r') \<Rightarrow> (Fails e, r')))"

definition init ::
  "services \<Rightarrow> schedule \<Rightarrow> rowsGzipDL \<Rightarrow> rowsConfig \<Rightarrow> world
     \<Rightarrow> unit outcome \<times> rowsGzipDL \<times> world" where
  "init env sched r cfg w =
     (case init_loop env cfg
             [(done0 sched, firstTask sched), (done1 sched, other_task (firstTask sched))] r of
        (Returns u, r') \<Rightarrow>
          (case AfterDownload cfg of
             None \<Rightarrow> (Returns (), r', w)
           | Some cleanup \<Rightarrow>
               (case cleanup w of
                  (Returns u', w') \<Rightarrow> (Returns (), r', w')
                | (Pending, w') \<Rightarrow> (Pending, r', w')
                | (Panics p, w') \<Rightarrow> (Panics p, r', w')
                | (Fails e, w') \<Rightarrow> (Fails e, r', w')))
      | (Pending, r') \<Rightarrow> (Pending, r', w)
      | (Panics p, r') \<Rightarrow> (Panics p, r', w)
      | (Fails e, r') \<Rightarrow> (Fails e, r', w))"

definition newRowsGzipDL ::
  "services \<Rightarrow> schedule \<Rightarrow> rowsConfig \<Rightarrow> world \<Rightarrow> unit outcome \<times> rowsGzipDL \<times> world" where
  "newRowsGzipDL env sched cfg w =
     init env sched
       \<lparr>queryID = QueryID cfg, resultMode = ResultMode cfg, downloadedRows = None,
        ctasTable = CTASTable cfg, db = DB cfg, catalog = Catalog cfg,
        ctasTableColumns = []\<rparr> cfg w"

subsection \<open>\<^verbatim>\<open>Next\<close>\<close>

text \<open>
  Modelled from the spec: \<^verbatim>\<open>convertRowFromTableInfo\<close> is declared outside conn.go and
  rows_gzip.go; it is a parameter that, from the columns, a row and the
  destination, gives its error and the destination as it leaves it. The outcome of
  \<open>nextCTAS\<close> is the error returned: \<open>Returns ()\<close> is nil, \<open>Fails EOF\<close> is
  \<^verbatim>\<open>io.EOF\<close>. Reading the cursor of a nil buffer panics.
\<close>

definition nextCTAS ::
  "(Column list \<Rightarrow> string list \<Rightarrow> 'v list \<Rightarrow> error option \<times> 'v list) \<Rightarrow> rowsGzipDL \<Rightarrow> 'v list
     \<Rightarrow> unit outcome \<times> rowsGzipDL \<times> 'v list" where
  "nextCTAS convertRowFromTableInfo r dest =
     (case downloadedRows r of
        None \<Rightarrow> (Panics NilDereference, r, dest)
      | Some d \<Rightarrow>
          if length (data d) \<le> cursor d then (Fails EOF, r, dest)
          else
            let row = data d ! cursor d
            in (case convertRowFromTableInfo (ctasTableColumns r) row dest of
                  (Some err, dest') \<Rightarrow> (Fails err, r, dest')
                | (None, dest') \<Rightarrow>
                    (Returns (),
                     r\<lparr>downloadedRows := Some (d\<lparr>cursor := cursor d + 1\<rparr>)\<rparr>, dest')))"

definition Next ::
  "(Column list \<Rightarrow> string list \<Rightarrow> 'v list \<Rightarrow> error option \<times> 'v list) \<Rightarrow> rowsGzipDL \<Rightarrow> 'v list
     \<Rightarrow> unit outcome \<times> rowsGzipDL \<times> 'v list" where
  "Next convertRowFromTableInfo r dest = nextCTAS convertRowFromTableInfo r dest"

text \<open>
  A sequence of calls of \<^verbatim>\<open>Next\<close>, one for each destination: the outcomes and
  the cursor after the last call.
\<close>

fun Next_calls ::
  "(Column list \<Rightarrow> string list \<Rightarrow> 'v list \<Rightarrow> error option \<times> 'v list) \<Rightarrow> rowsGzipDL
     \<Rightarrow> 'v list list \<Rightarrow> unit outcome list \<times> rowsGzipDL" where
  "Next_calls conv r [] = ([], r)"
| "Next_calls conv r (dest # dests) =
     (case Next conv r dest of
        (res, r', dest') \<Rightarrow>
          (case Next_calls conv r' dests of (ress, r'') \<Rightarrow> (res # ress, r'')))"

text \<open>The invariant of the buffer: the cursor does not exceed the number of rows.\<close>

definition cursor_ok :: "rowsGzipDL \<Rightarrow> bool" where
  "cursor_ok r = (case downloadedRows r of None \<Rightarrow> True | Some d \<Rightarrow> cursor d \<le> length (data d))"

subsection \<open>Examples for the statements about the cursor\<close>

text \<open>
  \<open>conv0\<close> is a conversion that copies the row into the destination and never
  fails; \<open>rows0\<close> is a cursor as \<^verbatim>\<open>newRowsGzipDL\<close> makes it; \<open>buffer2 n\<close> has a
  buffer of two rows and the cursor at \<open>n\<close>. \<open>envFail\<close> is an object store in
  which no object exists; its catalog knows the table.
\<close>

definition conv0 :: "Column list \<Rightarrow> string list \<Rightarrow> string list \<Rightarrow> error option \<times> string list" where
  "conv0 cols row dest = (None, row)"

definition rows0 :: rowsGzipDL where
  "rows0 = \<lparr>queryID = ''q1'', resultMode = ResultModeGzipDL, downloadedRows = None,
            ctasTable = ''tmp_ctas_x'', db = ''default'', catalog = [], ctasTableColumns = []\<rparr>"

definition buffer2 :: "nat \<Rightarrow> rowsGzipDL" where
  "buffer2 n = rows0\<lparr>downloadedRows := Some \<lparr>data = [[''a''], [''b'']], cursor = n\<rparr>\<rparr>"

definition envFail :: services where
  "envFail = \<lparr>GetObject = (\<lambda>bucket key. Inl (External ''NoSuchKey'')),
               gzipNewReader = (\<lambda>bytes. Inr (NewReader bytes)),
               GetTableMetadata = (\<lambda>cat database table. Inr (Some []))\<rparr>"

subsection \<open>Vocabulary and an example for the statement about the download\<close>

text \<open>
  \<open>manifest_of ls\<close> is the manifest with the lines \<open>ls\<close>, each ended by a newline,
  and \<open>object_key location l\<close> the object key that its line \<open>l\<close> stands for: the
  line without a trailing carriage return and without the location and one more
  byte in front, when it is longer than that. \<open>scanner_ok\<close> and \<open>pending\<close> are the
  invariant and the unread bytes of a scanner over a \<^verbatim>\<open>strings.Reader\<close>.
  \<open>trimmed\<close> is the location after the first statement of
  \<^verbatim>\<open>downloadCompressedData\<close>, \<open>fetch_rows\<close> what the body of its loop obtains
  for one object key (fetch, read, decompress, decode), \<open>buffered_rows\<close> the rows
  that the cursor holds (none when the buffer is nil). In the example the store
  \<open>envTwo\<close> holds a manifest that lists two objects of three and two rows, and the
  stored bytes stand for their decompressed content. The store \<open>envThree\<close> holds
  the same objects and a manifest that lists the second object, then the first one
  twice; its readers deliver their last bytes together with \<^verbatim>\<open>io.EOF\<close>.
\<close>

definition scanner_ok :: "Scanner \<Rightarrow> bool" where
  "scanner_ok s =
     (sc_err s = None \<and> sc_start s + length (sc_buf s) \<le> sc_cap s
      \<and> sc_cap s \<le> MaxScanTokenSize
      \<and> (sc_r s = [] \<or> (\<exists>bs. bs \<noteq> [] \<and> sc_r s = [(bs, None)])))"

definition pending :: "Scanner \<Rightarrow> string" where
  "pending s = sc_buf s @ concat (map fst (sc_r s))"

definition manifest_of :: "string list \<Rightarrow> string" where
  "manifest_of ls = concat (map (\<lambda>l. l @ [CHR 0x0A]) ls)"

definition object_key :: "string \<Rightarrow> string \<Rightarrow> string" where
  "object_key location l =
     (if int (length location) + 1 < int (length (dropCR l))
      then drop (length location + 1) (dropCR l) else dropCR l)"

definition trimmed :: "string \<Rightarrow> string" where
  "trimmed location =
     (if drop (length location - 1) location = ''/'' then take (length location - 1) location
      else location)"

definition fetch_rows :: "services \<Rightarrow> string \<Rightarrow> string \<Rightarrow> error + string list list" where
  "fetch_rows env bucketName objectKey =
     (case GetObject env bucketName objectKey of
        Inl err \<Rightarrow> Inl err
      | Inr body \<Rightarrow>
          (case ReadAll body of
             Inl err \<Rightarrow> Inl err
           | Inr bytes \<Rightarrow>
               (case gzipNewReader env bytes of
                  Inl err \<Rightarrow> Inl err
                | Inr gzipReader \<Rightarrow> getRecordsFromGzip gzipReader)))"

definition buffered_rows :: "rowsGzipDL \<Rightarrow> string list list" where
  "buffered_rows r = (case downloadedRows r of None \<Rightarrow> [] | Some d \<Rightarrow> data d)"

definition manifest2 :: string where
  "manifest2 = ''s3://results/t1'' @ [CHR 0x0A] @ ''s3://results/t2'' @ [CHR 0x0A]"

definition object1 :: string where
  "object1 = ''a'' @ [CHR 0x01] @ ''x'' @ [CHR 0x0A] @ ''b'' @ [CHR 0x01] @ ''y'' @ [CHR 0x0A]
             @ ''c'' @ [CHR 0x01] @ ''z'' @ [CHR 0x0A]"

definition object2 :: string where
  "object2 = ''d'' @ [CHR 0x01] @ ''u'' @ [CHR 0x0A] @ ''e'' @ [CHR 0x01] @ ''v'' @ [CHR 0x0A]"

definition envTwo :: services where
  "envTwo = \<lparr>GetObject = (\<lambda>bucket key.
                 if bucket \<noteq> ''results'' then Inl (External ''NoSuchBucket'')
                 else if key = ''tables/q1-manifest.csv'' then Inr (NewReader manifest2)
                 else if key = ''t1'' then Inr (NewReader object1)
                 else if key = ''t2'' then Inr (NewReader object2)
                 else Inl (External ''NoSuchKey'')),
              gzipNewReader = (\<lambda>bytes. Inr (NewReader bytes)),
              GetTableMetadata = (\<lambda>cat database table. Inr (Some []))\<rparr>"

definition manifest3 :: string where
  "manifest3 = ''s3://results/t2'' @ [CHR 0x0A] @ ''s3://results/t1'' @ [CHR 0x0A]
               @ ''s3://results/t1'' @ [CHR 0x0A]"

definition envThree :: services where
  "envThree = \<lparr>GetObject = (\<lambda>bucket key.
                  if bucket \<noteq> ''results'' then Inl (External ''NoSuchBucket'')
                  else if key = ''tables/q1-manifest.csv'' then Inr [(manifest3, Some EOF)]
                  else if key = ''t1'' then Inr [(object1, Some EOF)]
                  else if key = ''t2'' then Inr [(object2, Some EOF)]
                  else Inl (External ''NoSuchKey'')),
                gzipNewReader = (\<lambda>bytes. Inr [(bytes, Some EOF)]),
                GetTableMetadata = (\<lambda>cat database table. Inr (Some []))\<rparr>"

definition rows2 :: "string \<Rightarrow> string list list" where
  "rows2 k = (if k = ''t1'' then [[''a'', ''x''], [''b'', ''y''], [''c'', ''z'']]
              else [[''d'', ''u''], [''e'', ''v'']])"

subsection \<open>An example for the statement about the cleanup\<close>

text \<open>
  \<open>cfg1\<close> is a configuration as \<^verbatim>\<open>runQuery\<close> makes it in the compressed mode,
  with the cleanup that drops the table \<^verbatim>\<open>tmp_ctas_x\<close>; in \<open>sched0\<close> the download
  reports first and no deadline fires; \<open>envNoTable\<close> is the store \<open>envTwo\<close> with a
  catalog that does not know the table.
\<close>

definition cfg1 :: rowsConfig where
  "cfg1 = \<lparr>QueryID = ''q1'', SkipHeader = False, ResultMode = ResultModeGzipDL,
            OutputLocation = ''s3://results/'', Timeout = 1800,
            AfterDownload = Some (dropCTASTable conn0 ctx0 ''tmp_ctas_x''),
            CTASTable = ''tmp_ctas_x'', DB = ''default'', Catalog = []\<rparr>"

definition sched0 :: schedule where
  "sched0 = \<lparr>firstTask = TaskDownload, done0 = None, done1 = None\<rparr>"

definition envNoTable :: services where
  "envNoTable = envTwo\<lparr>GetTableMetadata := (\<lambda>cat database table. Inl (External ''EntityNotFound''))\<rparr>"

section \<open>Helper lemmas\<close>

lemma lit_mono: "lit s k rs \<Longrightarrow> (\<And>xs. k xs \<Longrightarrow> k' xs) \<Longrightarrow> lit s k' rs"
  by (induction s k rs rule: lit.induct) auto

lemma runes_ascii:
  "\<forall>c \<in> set p. (of_char c :: nat) < 0x80 \<Longrightarrow> runes p = map of_char p"
proof (induction p)
  case Nil
  show ?case by (simp add: runes.simps)
next
  case (Cons c p)
  have d: "DecodeRune (c # p) = (of_char c, 1)"
    using Cons.prems by (simp add: DecodeRune_def)
  show ?case
    using Cons by (subst runes.simps) (simp add: d)
qed

lemma ctas_implies_ddl: "ctasQueryPattern query \<Longrightarrow> ddlQueryPattern query"
proof -
  assume "ctasQueryPattern query"
  then have "lit ''CREATE'' anything (runes query)"
    unfolding ctasQueryPattern_def by (rule lit_mono) (simp add: anything_def)
  then show ?thesis
    unfolding ddlQueryPattern_def by simp
qed

lemma waitOnQuery_timer:
  assumes "getReplies w = Inr (Some st) # reps" "non_terminal st"
    "selectOutcomes w = TimerFired # sels"
  shows "waitOnQuery c ctx q w =
         waitOnQuery c ctx q (w\<lparr>trace := trace w @ [GetQueryExecution q, Sleep (pollFrequency c)],
                                getReplies := reps, selectOutcomes := sels\<rparr>)"
  using assms
  by (subst waitOnQuery.simps) (cases w; cases "State st"; simp add: non_terminal_def Let_def)

lemma waitOnQuery_done:
  assumes "getReplies w = Inr (Some st) # reps" "non_terminal st"
    "selectOutcomes w = CtxDone e # sels"
  shows "waitOnQuery c ctx q w =
         (Fails e, w\<lparr>trace := trace w @ [GetQueryExecution q, StopQueryExecution (Some e) q],
                                getReplies := reps, selectOutcomes := sels\<rparr>)"
  using assms
  by (subst waitOnQuery.simps) (cases w; cases "State st"; simp add: non_terminal_def Let_def)

lemma waitOnQuery_skip:
  "\<forall>st \<in> set sts. non_terminal st \<Longrightarrow>
   getReplies w = map (Inr \<circ> Some) sts @ reps \<Longrightarrow>
   selectOutcomes w = replicate (length sts) TimerFired @ sels \<Longrightarrow>
   waitOnQuery c ctx q w =
     waitOnQuery c ctx q (w\<lparr>trace := trace w @ polled q (pollFrequency c) (length sts),
                            getReplies := reps, selectOutcomes := sels\<rparr>)"
proof (induction sts arbitrary: w)
  case Nil
  then have "w\<lparr>trace := trace w, getReplies := reps, selectOutcomes := sels\<rparr> = w"
    by simp
  then show ?case by (simp add: polled_def)
next
  case (Cons st sts)
  let ?w1 = "w\<lparr>trace := trace w @ [GetQueryExecution q, Sleep (pollFrequency c)],
               getReplies := map (Inr \<circ> Some) sts @ reps,
               selectOutcomes := replicate (length sts) TimerFired @ sels\<rparr>"
  have "waitOnQuery c ctx q w = waitOnQuery c ctx q ?w1"
    using Cons.prems by (intro waitOnQuery_timer [where st = st]) simp_all
  also have "\<dots> = waitOnQuery c ctx q (?w1\<lparr>trace := trace ?w1 @ polled q (pollFrequency c) (length sts),
                            getReplies := reps, selectOutcomes := sels\<rparr>)"
    using Cons.prems by (intro Cons.IH) simp_all
  finally show ?case by (simp add: polled_def)
qed

lemma waitOnQuery_terminal:
  assumes "getReplies w = Inr (Some st) # reps"
  shows "State st = Succeeded \<Longrightarrow> waitOnQuery c ctx q w =
           (Returns (), w\<lparr>trace := trace w @ [GetQueryExecution q], getReplies := reps\<rparr>)"
    and "State st = Cancelled \<Longrightarrow> waitOnQuery c ctx q w =
           (Fails Canceled, w\<lparr>trace := trace w @ [GetQueryExecution q], getReplies := reps\<rparr>)"
    and "State st = Failed \<Longrightarrow> StateChangeReason st = Some reason \<Longrightarrow> waitOnQuery c ctx q w =
           (Fails (ErrorString reason), w\<lparr>trace := trace w @ [GetQueryExecution q], getReplies := reps\<rparr>)"
  using assms by (subst waitOnQuery.simps, cases w, simp add: Let_def)+


lemma filter_is_stop_polled: "filter is_stop (polled q d n) = []"
  by (induction n) (simp_all add: polled_def is_stop_def)

lemma filter_stop_sent_polled: "filter stop_sent (polled q d n) = []"
  by (induction n) (simp_all add: polled_def stop_sent_def)

lemma waitOnQuery_cancel:
  assumes "\<forall>st \<in> set sts. non_terminal st" and "non_terminal st"
    and "getReplies w = map (Inr \<circ> Some) sts @ Inr (Some st) # reps"
    and "selectOutcomes w = replicate (length sts) TimerFired @ CtxDone ctxErr # sels"
  shows "waitOnQuery c ctx qid w =
           (Fails ctxErr,
            w\<lparr>trace := trace w @ polled qid (pollFrequency c) (length sts)
                            @ [GetQueryExecution qid, StopQueryExecution (Some ctxErr) qid],
               getReplies := reps, selectOutcomes := sels\<rparr>)"
proof -
  let ?w1 = "w\<lparr>trace := trace w @ polled qid (pollFrequency c) (length sts),
               getReplies := Inr (Some st) # reps,
               selectOutcomes := CtxDone ctxErr # sels\<rparr>"
  have "waitOnQuery c ctx qid w = waitOnQuery c ctx qid ?w1"
    using assms(1,3,4) by (rule waitOnQuery_skip)
  also have "\<dots> = (Fails ctxErr,
       ?w1\<lparr>trace := trace ?w1 @ [GetQueryExecution qid, StopQueryExecution (Some ctxErr) qid],
           getReplies := reps, selectOutcomes := sels\<rparr>)"
    using assms(2) by (intro waitOnQuery_done [where st = st]) simp_all
  finally show ?thesis by simp
qed

lemma waitOnQuery_never_sends_stop:
  "filter stop_sent (trace (snd (waitOnQuery c ctx qid w))) = filter stop_sent (trace w)"
proof (induction "length (getReplies w)" arbitrary: w rule: less_induct)
  case less
  show ?case
  proof (cases "getReplies w")
    case Nil
    then show ?thesis by (subst waitOnQuery.simps) simp
  next
    case (Cons rep reps)
    show ?thesis
    proof (cases rep)
      case (Inl err)
      with Cons show ?thesis
        by (subst waitOnQuery.simps) (simp add: stop_sent_def)
    next
      case (Inr sto)
      show ?thesis
      proof (cases sto)
        case None
        with Cons Inr show ?thesis
          by (subst waitOnQuery.simps) (simp add: stop_sent_def)
      next
        case (Some st)
        with Cons Inr have g: "getReplies w = Inr (Some st) # reps" by simp
        show ?thesis
        proof (cases "non_terminal st")
          case False
          with g show ?thesis
            by (subst waitOnQuery.simps)
               (auto simp: stop_sent_def non_terminal_def Let_def
                     split: QueryExecutionState.splits option.splits)
        next
          case nt: True
          show ?thesis
          proof (cases "selectOutcomes w")
            case Nil
            with g nt show ?thesis
              by (subst waitOnQuery.simps)
                 (auto simp: stop_sent_def non_terminal_def Let_def
                       split: QueryExecutionState.splits)
          next
            case sel: (Cons so sels)
            show ?thesis
            proof (cases so)
              case (CtxDone e)
              with sel have "selectOutcomes w = CtxDone e # sels" by simp
              from waitOnQuery_done [OF g nt this]
              show ?thesis by (simp add: stop_sent_def)
            next
              case TimerFired
              with sel have "selectOutcomes w = TimerFired # sels" by simp
              note eq = waitOnQuery_timer [OF g nt this, of c ctx qid]
              let ?w2 = "w\<lparr>trace := trace w @ [GetQueryExecution qid, Sleep (pollFrequency c)],
                       getReplies := reps, selectOutcomes := sels\<rparr>"
              have "length (getReplies ?w2) < length (getReplies w)"
                using g by simp
              from less.hyps [OF this]
              show ?thesis
                unfolding eq by (simp add: stop_sent_def)
            qed
          qed
        qed
      qed
    qed
  qed
qed

lemma filter_is_poll_polled: "length (filter is_poll (polled q d n)) = n"
  by (induction n) (simp_all add: polled_def is_poll_def)

lemma and_then_Returns_iff:
  "fst (and_then m f) = Returns y \<longleftrightarrow> (\<exists>x. fst m = Returns x \<and> fst (f x (snd m)) = Returns y)"
  by (cases m; cases "fst m") (auto simp: and_then_def)

lemma and_then_eq_Returns_iff:
  "and_then m f = (Returns y, w') \<longleftrightarrow> (\<exists>x w1. m = (Returns x, w1) \<and> f x w1 = (Returns y, w'))"
  by (cases m; cases "fst m") (auto simp: and_then_def)

lemma runQuery_Returns_mode:
  assumes "fst (runQuery ext c ctx query w) = Returns cfg"
  shows "runQuery_resultMode c ctx query = Inr (ResultMode cfg)"
proof (cases "runQuery_resultMode c ctx query")
  case (Inl err)
  with assms show ?thesis by (simp add: runQuery_def)
next
  case (Inr rm)
  with assms have "ResultMode cfg = rm"
    by (auto simp: runQuery_def Let_def and_then_eq_Returns_iff
             split: prod.splits option.splits if_splits)
  with Inr show ?thesis by simp
qed

lemma prepareContext_Returns_mode:
  assumes "fst (prepareContext ext c ctx query w) = Returns stmt"
  shows "stmtResultMode stmt = prepareContext_resultMode c ctx query"
  using assms
  by (auto simp: prepareContext_def Let_def and_then_Returns_iff and_then_eq_Returns_iff
           split: prod.splits if_splits)

lemma drop_not_select: "\<not> isSelectQuery ''DROP TABLE t''"
  by (simp add: isSelectQuery_def getQueryType_def ddlQueryPattern_def runes_ascii
        fold_orbit_def anything_def)

lemma select_is_select: "isSelectQuery ''SELECT 1''"
  by (simp add: isSelectQuery_def getQueryType_def ddlQueryPattern_def ctasQueryPattern_def
        selectQueryPattern_def runes_ascii fold_orbit_def anything_def)

lemma runQuery_drop_returns:
  "\<exists>cfg. fst (runQuery ext0 connDL
                ctxGzip ''DROP TABLE t'' world1)
          = Returns cfg"
  by (simp add: runQuery_def runQuery_resultMode_def drop_not_select getResultMode_def
        getTimeout_def getCatalog_def isValidResultMode_def isCreatingCTASTable_def
        ext0_def connDL_def ctxGzip_def conn0_def ctx0_def world1_def world0_def status_def
        startQuery_def and_then_def waitOnQuery.simps Let_def)

lemma prepareContext_drop_returns:
  "\<exists>stmt. fst (prepareContext ext0 connDL
                ctxGzip ''DROP TABLE t'' world1)
          = Returns stmt"
  by (simp add: prepareContext_def prepareContext_resultMode_def drop_not_select getResultMode_def
        getTimeout_def getCatalog_def isCreatingCTASTable_def
        ext0_def connDL_def ctxGzip_def conn0_def ctx0_def world1_def world0_def status_def
        startQuery_def and_then_def waitOnQuery.simps Let_def)

lemmas decode_simps = getRecordsFromGzip_def getObjectKeysForGzip_def for_each_token.simps
  Scan.simps read_more.simps ScanLines_def NewScanner_def Err_def ReadAll_def
  getRecordsFromGzip_record.simps MaxScanTokenSize_def startBufSize_def
  maxConsecutiveEmptyReads_def dropCR_def DecodeRune_def RuneError_def string_of_rune_def
  seq_info_def cont_def Let_def char_of_eq_iff NewReader_def

lemma Scan_token:
  assumes "sc_buf s \<noteq> [] \<or> sc_err s \<noteq> None"
    and "ScanLines (sc_buf s) (sc_err s \<noteq> None) = Some (advance, token)"
  shows "Scan s = (Some token,
           s\<lparr>sc_buf := drop advance (sc_buf s), sc_start := sc_start s + advance\<rparr>)"
proof -
  from assms have c: "(if sc_buf s \<noteq> [] \<or> sc_err s \<noteq> None
            then ScanLines (sc_buf s) (sc_err s \<noteq> None) else None) = Some (advance, token)"
    by simp
  show ?thesis
    by (subst Scan.simps, simp only: c option.case prod.case)
qed

lemma Scan_stop:
  assumes "(if sc_buf s \<noteq> [] \<or> sc_err s \<noteq> None
            then ScanLines (sc_buf s) (sc_err s \<noteq> None) else None) = None"
    and "sc_err s \<noteq> None"
  shows "Scan s = (None, s\<lparr>sc_buf := [], sc_start := 0\<rparr>)"
proof -
  from assms(2) have ne: "(sc_err s \<noteq> None) = True" by simp
  show ?thesis
    by (subst Scan.simps, simp only: assms(1) option.case, simp only: ne if_True)
qed

lemma Scan_read:
  fixes s :: Scanner
  defines "start1 \<equiv> (if 0 < sc_start s
                             \<and> (sc_start s + length (sc_buf s) = sc_cap s
                                  \<or> sc_cap s div 2 < sc_start s)
                          then 0 else sc_start s)"
  defines "full \<equiv> (start1 + length (sc_buf s) = sc_cap s)"
  defines "cap1 \<equiv> (if full
                             then min (if sc_cap s * 2 = 0 then startBufSize else sc_cap s * 2)
                                    MaxScanTokenSize
                             else sc_cap s)"
  defines "start2 \<equiv> (if full then 0 else start1)"
  defines "got \<equiv> read_more 0 (cap1 - (start2 + length (sc_buf s))) (sc_r s)"
  assumes none: "(if sc_buf s \<noteq> [] \<or> sc_err s \<noteq> None
            then ScanLines (sc_buf s) (sc_err s \<noteq> None) else None) = None"
    and noerr: "sc_err s = None"
  shows "Scan s =
          (if full \<and> MaxScanTokenSize \<le> sc_cap s
           then (None, s\<lparr>sc_start := start1, sc_err := Some ErrTooLong\<rparr>)
           else Scan (s\<lparr>sc_r := snd (snd got), sc_buf := sc_buf s @ fst got,
                            sc_start := start2, sc_cap := cap1, sc_err := fst (snd got)\<rparr>))"
proof -
  from noerr have ne: "(sc_err s \<noteq> None) = False" by simp
  show ?thesis
    by (subst Scan.simps, simp only: none option.case, simp only: ne if_False,
        simp only: Let_def, fold start1_def, fold full_def, fold cap1_def, fold start2_def,
        fold got_def, rule refl)
qed

lemma IndexByte_first: "c \<notin> set l \<Longrightarrow> IndexByte (l @ c # xs) c = Some (length l)"
  by (induction l) auto

lemma IndexByte_None: "c \<notin> set bs \<Longrightarrow> IndexByte bs c = None"
  by (induction bs) auto

lemma read_more_one:
  assumes "bs \<noteq> []" and "0 < n"
  shows "read_more 0 n [(bs, None)] =
           (if length bs \<le> n then (bs, None, []) else (take n bs, None, [(drop n bs, None)]))"
  using assms by (subst read_more.simps) auto

lemma read_more_empty: "read_more 0 n [] = ([], Some EOF, [])"
  by (subst read_more.simps) simp


lemma Scan_line:
  assumes "scanner_ok s" and "pending s = l @ CHR 0x0A # rst"
    and "CHR 0x0A \<notin> set l" and "length l < MaxScanTokenSize"
  shows "\<exists>s'. Scan s = (Some (dropCR l), s') \<and> scanner_ok s' \<and> pending s' = rst"
  using assms
proof (induction "reader_bytes (sc_r s)" arbitrary: s rule: less_induct)
  case less
  let ?nl = "CHR 0x0A"
  let ?R = "concat (map fst (sc_r s))"
  from less.prems(1) have ok: "sc_err s = None" "sc_start s + length (sc_buf s) \<le> sc_cap s"
      "sc_cap s \<le> MaxScanTokenSize"
      "sc_r s = [] \<or> (\<exists>bs. bs \<noteq> [] \<and> sc_r s = [(bs, None)])"
    by (auto simp: scanner_ok_def)
  from less.prems(2) have p: "sc_buf s @ ?R = l @ ?nl # rst"
    by (simp add: pending_def)
  show ?case
  proof (cases "?nl \<in> set (sc_buf s)")
    case True
    from p obtain us where
      "(sc_buf s = l @ us \<and> us @ ?R = ?nl # rst) \<or> (sc_buf s @ us = l \<and> ?R = us @ ?nl # rst)"
      by (auto simp: append_eq_append_conv2)
    with True less.prems(3) have b: "sc_buf s = l @ us" "us @ ?R = ?nl # rst"
      by auto
    from b True less.prems(3) obtain us' where us: "us = ?nl # us'"
      by (cases us) auto
    with b have m: "rst = us' @ ?R" by simp
    have sl: "ScanLines (sc_buf s) (sc_err s \<noteq> None) = Some (length l + 1, dropCR l)"
      using b us less.prems(3) ok(1) by (simp add: ScanLines_def IndexByte_first)
    have "Scan s = (Some (dropCR l),
           s\<lparr>sc_buf := drop (length l + 1) (sc_buf s), sc_start := sc_start s + (length l + 1)\<rparr>)"
      using b us by (intro Scan_token sl) simp
    moreover have "scanner_ok (s\<lparr>sc_buf := drop (length l + 1) (sc_buf s),
                                 sc_start := sc_start s + (length l + 1)\<rparr>)"
      using ok b us by (auto simp: scanner_ok_def)
    moreover have "pending (s\<lparr>sc_buf := drop (length l + 1) (sc_buf s),
                                sc_start := sc_start s + (length l + 1)\<rparr>) = rst"
      using b us m by (simp add: pending_def)
    ultimately show ?thesis by blast
  next
    case False
    from p obtain us where
      "(sc_buf s = l @ us \<and> us @ ?R = ?nl # rst) \<or> (sc_buf s @ us = l \<and> ?R = us @ ?nl # rst)"
      by (auto simp: append_eq_append_conv2)
    with False have "\<exists>vs. sc_buf s @ vs = l \<and> ?R = vs @ ?nl # rst"
      by (cases us) auto
    then obtain vs where b: "sc_buf s @ vs = l" and r: "?R = vs @ ?nl # rst"
      by blast
    from r ok(4) obtain bs where bs: "sc_r s = [(bs, None)]" "bs \<noteq> []" "bs = vs @ ?nl # rst"
      by auto
    from b less.prems(4) have len: "length (sc_buf s) < MaxScanTokenSize"
      by (metis length_append less_imp_le_nat not_add_less1 not_le_imp_less order.strict_trans1 trans_less_add1)
    define start1 where "start1 = (if 0 < sc_start s
                             \<and> (sc_start s + length (sc_buf s) = sc_cap s
                                  \<or> sc_cap s div 2 < sc_start s)
                          then 0 else sc_start s)"
    define full where "full = (start1 + length (sc_buf s) = sc_cap s)"
    define cap1 where "cap1 = (if full
                             then min (if sc_cap s * 2 = 0 then startBufSize else sc_cap s * 2)
                                    MaxScanTokenSize
                             else sc_cap s)"
    define start2 where "start2 = (if full then 0 else start1)"
    define space where "space = cap1 - (start2 + length (sc_buf s))"
    define got where "got = read_more 0 space (sc_r s)"
    define s' where "s' = s\<lparr>sc_r := snd (snd got), sc_buf := sc_buf s @ fst got,
                            sc_start := start2, sc_cap := cap1, sc_err := fst (snd got)\<rparr>"
    have none: "(if sc_buf s \<noteq> [] \<or> sc_err s \<noteq> None
            then ScanLines (sc_buf s) (sc_err s \<noteq> None) else None) = None"
      using False ok(1) by (simp add: ScanLines_def IndexByte_None)
    have nf: "\<not> (full \<and> MaxScanTokenSize \<le> sc_cap s)"
      using len ok(2,3) unfolding full_def start1_def by (auto split: if_splits)
    have eq: "Scan s = Scan s'"
      using Scan_read [OF none ok(1)] nf
      unfolding s'_def got_def space_def start2_def cap1_def full_def start1_def
      by simp
    have sp: "0 < space \<and> start2 + length (sc_buf s) + space \<le> cap1 \<and> cap1 \<le> MaxScanTokenSize"
      using nf ok(2,3) unfolding space_def cap1_def start2_def full_def start1_def
      by (auto simp: startBufSize_def MaxScanTokenSize_def split: if_splits)
    have g: "got = (if length bs \<le> space then (bs, None, [])
                    else (take space bs, None, [(drop space bs, None)]))"
      unfolding got_def bs(1) using bs(2) sp by (intro read_more_one) auto
    have ok': "scanner_ok s'"
      using sp bs(2) unfolding s'_def g by (auto simp: scanner_ok_def)
    have "pending s' = sc_buf s @ bs"
      unfolding s'_def g by (simp add: pending_def)
    with p bs(1) have pend': "pending s' = l @ ?nl # rst"
      by simp
    have "reader_bytes (sc_r s') < reader_bytes (sc_r s)"
      using sp bs(2) unfolding s'_def g bs(1) by (auto simp: reader_bytes_def)
    from less.hyps [OF this ok' pend' less.prems(3,4)] eq
    show ?thesis by simp
  qed
qed

lemma Scan_end:
  assumes "scanner_ok s" and "pending s = []"
  shows "fst (Scan s) = None"
proof -
  from assms have e: "sc_buf s = []" "sc_r s = []" "sc_err s = None"
    by (auto simp: scanner_ok_def pending_def)
  have none: "(if sc_buf s \<noteq> [] \<or> sc_err s \<noteq> None
            then ScanLines (sc_buf s) (sc_err s \<noteq> None) else None) = None"
    using e by simp
  have fin: "fst (Scan t) = None" if "sc_buf t = []" "sc_err t = Some EOF" for t
  proof -
    have "(if sc_buf t \<noteq> [] \<or> sc_err t \<noteq> None
            then ScanLines (sc_buf t) (sc_err t \<noteq> None) else None) = None"
      using that by (simp add: ScanLines_def)
    from Scan_stop [OF this] that show ?thesis by simp
  qed
  show ?thesis
    by (subst Scan_read [OF none e(3)]) (auto simp: e read_more_empty intro!: fin)
qed

lemma for_each_token_lines:
  assumes "scanner_ok s" and "pending s = manifest_of ls"
    and "\<forall>l \<in> set ls. CHR 0x0A \<notin> set l \<and> length l < MaxScanTokenSize"
  shows "for_each_token s body acc = Inr (fold body (map dropCR ls) acc)"
  using assms
proof (induction ls arbitrary: s acc)
  case Nil
  then have "fst (Scan s) = None" by (intro Scan_end) (simp_all add: manifest_of_def)
  then show ?case
    by (subst for_each_token.simps) (auto split: prod.splits)
next
  case (Cons l ls)
  from Cons.prems have p: "pending s = l @ CHR 0x0A # manifest_of ls"
    by (simp add: manifest_of_def)
  from Scan_line [OF Cons.prems(1) p] Cons.prems(3)
  obtain s' where s': "Scan s = (Some (dropCR l), s')" "scanner_ok s'" "pending s' = manifest_of ls"
    by auto
  from s'(2) have err: "Err s' = None" by (simp add: scanner_ok_def Err_def)
  have "for_each_token s body acc = for_each_token s' body (body (dropCR l) acc)"
    by (subst for_each_token.simps) (simp add: s'(1) err)
  also have "\<dots> = Inr (fold body (map dropCR ls) (body (dropCR l) acc))"
    using s'(2,3) Cons.prems(3) by (intro Cons.IH) simp_all
  finally show ?case by simp
qed

lemma getObjectKeysForGzip_lines:
  assumes "\<forall>l \<in> set ls. CHR 0x0A \<notin> set l \<and> length l < MaxScanTokenSize"
  shows "getObjectKeysForGzip (NewReader (manifest_of ls)) start =
           Inr (map (\<lambda>l. if 0 < start \<and> start < int (length (dropCR l))
                           then drop (nat start) (dropCR l) else dropCR l) ls)"
proof -
  have ok: "scanner_ok (NewScanner (NewReader (manifest_of ls)))"
    by (simp add: scanner_ok_def NewScanner_def NewReader_def)
  have p: "pending (NewScanner (NewReader (manifest_of ls))) = manifest_of ls"
    by (simp add: pending_def NewScanner_def NewReader_def)
  have f: "fold (\<lambda>x ys. ys @ [g x]) xs ys = ys @ map g xs" for g :: "string \<Rightarrow> string" and xs ys
    by (induction xs arbitrary: ys) simp_all
  show ?thesis
    unfolding getObjectKeysForGzip_def for_each_token_lines [OF ok p assms]
    by (simp add: f Let_def comp_def)
qed

lemma gzip_error_surfaces:
  assumes "bs \<noteq> []" and "length bs \<le> startBufSize" and "e \<noteq> EOF"
  shows "getRecordsFromGzip [(bs, Some e)] = Inl e"
proof -
  let ?s = "NewScanner [(bs, Some e)]"
  let ?s1 = "\<lparr>sc_r = [], sc_buf = bs, sc_start = 0, sc_cap = 4096, sc_err = Some e\<rparr>"
  have none: "(if sc_buf ?s \<noteq> [] \<or> sc_err ?s \<noteq> None
            then ScanLines (sc_buf ?s) (sc_err ?s \<noteq> None) else None) = None"
    by (simp add: NewScanner_def)
  have r: "read_more 0 4096 [(bs, Some e)] = (bs, Some e, [])"
    using assms(2) by (subst read_more.simps) (simp add: startBufSize_def)
  have s1: "Scan ?s = Scan ?s1"
    by (subst Scan_read [OF none])
       (simp_all add: NewScanner_def startBufSize_def MaxScanTokenSize_def r)
  have "\<exists>at. ScanLines bs True = Some at"
    using assms(1) by (cases "IndexByte bs (CHR 0x0A)") (simp_all add: ScanLines_def)
  then obtain advance token where sl: "ScanLines bs True = Some (advance, token)"
    by auto
  have "Scan ?s1 = (Some token,
          ?s1\<lparr>sc_buf := drop advance (sc_buf ?s1), sc_start := sc_start ?s1 + advance\<rparr>)"
    using sl by (intro Scan_token) simp_all
  with s1 show ?thesis
    using assms(3)
    by (simp add: getRecordsFromGzip_def for_each_token.simps [of ?s] Err_def)
qed

lemma Next_at_end:
  "downloadedRows r = Some d \<Longrightarrow> length (data d) \<le> cursor d \<Longrightarrow>
   Next conv r dest = (Fails EOF, r, dest)"
  by (simp add: Next_def nextCTAS_def)

lemma Next_calls_at_end:
  "downloadedRows r = Some d \<Longrightarrow> length (data d) \<le> cursor d \<Longrightarrow>
   Next_calls conv r dests = (replicate (length dests) (Fails EOF), r)"
  by (induction dests) (simp_all add: Next_at_end)

lemma Next_cursor_ok: "cursor_ok r \<Longrightarrow> cursor_ok (fst (snd (Next conv r dest)))"
  by (auto simp: cursor_ok_def Next_def nextCTAS_def Let_def split: option.splits prod.splits)

lemma Next_success:
  "fst (Next conv r dest) = Returns () \<Longrightarrow>
   \<exists>d. downloadedRows r = Some d \<and> cursor d < length (data d)
     \<and> fst (snd (Next conv r dest)) = r\<lparr>downloadedRows := Some (d\<lparr>cursor := cursor d + 1\<rparr>)\<rparr>"
  by (auto simp: Next_def nextCTAS_def Let_def split: option.splits prod.splits if_splits)

lemma loop_no_panic:
  "fst (downloadCompressedData_loop env b keys r) \<noteq> Panics p"
  by (induction keys arbitrary: r) (auto split: sum.splits simp: Let_def)

lemma loop_appends:
  "\<forall>k \<in> set keys. fetch_rows env b k = Inr (rows k) \<Longrightarrow>
   fst (downloadCompressedData_loop env b keys r) = Returns ()
   \<and> buffered_rows (snd (downloadCompressedData_loop env b keys r))
       = buffered_rows r @ concat (map rows keys)
   \<and> (keys \<noteq> [] \<longrightarrow>
        downloadedRows (snd (downloadCompressedData_loop env b keys r))
          = Some \<lparr>data = buffered_rows r @ concat (map rows keys),
                  cursor = (case downloadedRows r of None \<Rightarrow> 0 | Some d \<Rightarrow> cursor d)\<rparr>)
   \<and> (keys = [] \<longrightarrow> snd (downloadCompressedData_loop env b keys r) = r)"
proof (induction keys arbitrary: r)
  case Nil
  show ?case by simp
next
  case (Cons k keys)
  from Cons.prems have k: "fetch_rows env b k = Inr (rows k)" by simp
  then obtain body bytes gz where
    g: "GetObject env b k = Inr body" "ReadAll body = Inr bytes"
       "gzipNewReader env bytes = Inr gz" "getRecordsFromGzip gz = Inr (rows k)"
    by (auto simp: fetch_rows_def split: sum.splits)
  let ?d = "case downloadedRows r of None \<Rightarrow> \<lparr>data = [], cursor = 0\<rparr> | Some d' \<Rightarrow> d'"
  let ?r1 = "r\<lparr>downloadedRows := Some (?d\<lparr>data := data ?d @ rows k\<rparr>)\<rparr>"
  have step: "downloadCompressedData_loop env b (k # keys) r = downloadCompressedData_loop env b keys ?r1"
    using g by (simp add: Let_def)
  have ih: "fst (downloadCompressedData_loop env b keys ?r1) = Returns ()
   \<and> buffered_rows (snd (downloadCompressedData_loop env b keys ?r1))
       = buffered_rows ?r1 @ concat (map rows keys)
   \<and> (keys \<noteq> [] \<longrightarrow>
        downloadedRows (snd (downloadCompressedData_loop env b keys ?r1))
          = Some \<lparr>data = buffered_rows ?r1 @ concat (map rows keys),
                  cursor = (case downloadedRows ?r1 of None \<Rightarrow> 0 | Some d \<Rightarrow> cursor d)\<rparr>)
   \<and> (keys = [] \<longrightarrow> snd (downloadCompressedData_loop env b keys ?r1) = ?r1)"
    using Cons.prems by (intro Cons.IH) simp
  have b1: "buffered_rows ?r1 = buffered_rows r @ rows k"
    by (simp add: buffered_rows_def split: option.splits)
  have c1: "(case downloadedRows ?r1 of None \<Rightarrow> 0 | Some d \<Rightarrow> cursor d)
            = (case downloadedRows r of None \<Rightarrow> 0 | Some d \<Rightarrow> cursor d)"
    by (simp split: option.splits)
  have d1: "downloadedRows ?r1 = Some \<lparr>data = buffered_rows r @ rows k,
               cursor = (case downloadedRows r of None \<Rightarrow> 0 | Some d \<Rightarrow> cursor d)\<rparr>"
    by (simp add: buffered_rows_def split: option.splits)
  show ?case
  proof (cases "keys = []")
    case True
    then show ?thesis using step b1 d1 by simp
  next
    case False
    then show ?thesis using step ih b1 c1 by simp
  qed
qed

lemma keys2: "getObjectKeysForGzip (NewReader manifest2) 13 = Inr [''t1'', ''t2'']"
  by (simp add: manifest2_def decode_simps)

lemma fetch2:
  "fetch_rows envTwo ''results'' ''t1'' = Inr (rows2 ''t1'')"
  "fetch_rows envTwo ''results'' ''t2'' = Inr (rows2 ''t2'')"
  by (simp_all add: fetch_rows_def envTwo_def rows2_def object1_def object2_def decode_simps)

lemma init_world:
  "snd (snd (init env sched r cfg w)) =
     (case (fst (init_loop env cfg
               [(done0 sched, firstTask sched), (done1 sched, other_task (firstTask sched))] r),
            AfterDownload cfg) of
        (Returns u, Some cleanup) \<Rightarrow> snd (cleanup w)
      | _ \<Rightarrow> w)"
  by (auto simp: init_def split: prod.splits outcome.splits option.splits)

lemma download2:
  "downloadCompressedData envTwo rows0 ''s3://results/'' =
     (Returns (), rows0\<lparr>downloadedRows :=
        Some \<lparr>data = [[''a'', ''x''], [''b'', ''y''], [''c'', ''z''], [''d'', ''u''], [''e'', ''v'']],
              cursor = 0\<rparr>\<rparr>)"
  by (simp add: downloadCompressedData_def envTwo_def rows0_def manifest2_def
        object1_def object2_def decode_simps)

lemma loop_no_pending:
  "fst (downloadCompressedData_loop env b keys r) \<noteq> Pending"
  by (induction keys arbitrary: r) (auto split: sum.splits simp: Let_def)

lemma download_no_pending: "fst (downloadCompressedData env r location) \<noteq> Pending"
  using loop_no_pending [of env]
  by (simp add: downloadCompressedData_def Let_def del: One_nat_def split: sum.splits)

lemma decode_examples_gzip_reader:
  "getRecordsFromGzip [(''a'' @ [CHR 0x01] @ ''b'' @ [CHR 0x01] @ ''c'' @ [CHR 0x0A], Some EOF)]
     = Inr [[''a'', ''b'', ''c'']]
   \<and> getRecordsFromGzip [([CHR 0x0A], Some EOF)] = Inr [[[CHR 0xEF, CHR 0xBF, CHR 0xBD]]]
   \<and> getRecordsFromGzip [(''a'' @ [CHR 0x0A], Some (External ''gzip: invalid checksum''))]
     = Inl (External ''gzip: invalid checksum'')"
  by (simp add: decode_simps)

section \<open>Claims\<close>

text \<open>
  C1. The claim is that, when a CTAS table was created (\<open>AfterDownload\<close> is not
  nil), the cleanup that drops it is invoked exactly once after the rows were
  materialised, also when the download or the metadata fetch inside \<open>init\<close> returns
  an error. When both fetches succeed, \<open>init\<close> invokes the cleanup once: the trace
  holds the one \<^verbatim>\<open>DROP TABLE\<close> query and its status check. When the download
  fails, or when the metadata fetch fails, \<open>init\<close> returns that error and the
  world is the one it started from, with an empty trace: the cleanup is not
  invoked and the table stays.
\<close>

theorem C1_cleanup_skipped_on_error:
  "AfterDownload cfg1 \<noteq> None
   \<and> fst (newRowsGzipDL envTwo sched0 cfg1 world1) = Returns ()
   \<and> trace (snd (snd (newRowsGzipDL envTwo sched0 cfg1 world1))) =
       [StartQueryExecution
          \<lparr>QueryString = ''DROP TABLE tmp_ctas_x'', Database = ''default'', CatalogName = None,
           ResultOutputLocation = ''s3://results'', WorkGroup = ''primary''\<rparr>,
        GetQueryExecution ''q1'']
   \<and> newRowsGzipDL envFail sched0 cfg1 world1 = (Fails (External ''NoSuchKey''), rows0, world1)
   \<and> fst (newRowsGzipDL envNoTable sched0 cfg1 world1) = Fails (External ''EntityNotFound'')
   \<and> snd (snd (newRowsGzipDL envNoTable sched0 cfg1 world1)) = world1
   \<and> trace world1 = []"
proof -
  have r0: "\<lparr>queryID = QueryID cfg1, resultMode = ResultMode cfg1, downloadedRows = None,
        ctasTable = CTASTable cfg1, db = DB cfg1, catalog = Catalog cfg1,
        ctasTableColumns = []\<rparr> = rows0"
    by (simp add: cfg1_def rows0_def)
  have loc: "OutputLocation cfg1 = ''s3://results/''" and ad: "AfterDownload cfg1 \<noteq> None"
     and ad': "AfterDownload cfg1 = Some (dropCTASTable conn0 ctx0 ''tmp_ctas_x'')"
    by (simp_all add: cfg1_def)
  have dfail: "downloadCompressedData envFail rows0 ''s3://results/'' = (Fails (External ''NoSuchKey''), rows0)"
    by (simp add: downloadCompressedData_def envFail_def)
  have dok: "downloadCompressedData envNoTable rows0 ''s3://results/'' =
     (Returns (), rows0\<lparr>downloadedRows :=
        Some \<lparr>data = [[''a'', ''x''], [''b'', ''y''], [''c'', ''z''], [''d'', ''u''], [''e'', ''v'']],
              cursor = 0\<rparr>\<rparr>)"
    by (simp add: downloadCompressedData_def envNoTable_def envTwo_def rows0_def
          manifest2_def object1_def object2_def decode_simps)
  have drop: "dropCTASTable conn0 ctx0 ''tmp_ctas_x'' world1 =
     (Returns (), world0\<lparr>trace := [StartQueryExecution
          \<lparr>QueryString = ''DROP TABLE tmp_ctas_x'', Database = ''default'', CatalogName = None,
           ResultOutputLocation = ''s3://results'', WorkGroup = ''primary''\<rparr>,
        GetQueryExecution ''q1'']\<rparr>)"
    by (simp add: dropCTASTable_def startQuery_def getCatalog_def conn0_def ctx0_def world1_def
          world0_def status_def waitOnQuery.simps Let_def)
  have gt2: "getTableAsync envTwo r = (Returns (), r\<lparr>ctasTableColumns := []\<rparr>)" for r
    by (simp add: getTableAsync_def envTwo_def)
  have gtNo: "getTableAsync envNoTable r = (Fails (External ''EntityNotFound''), r)" for r
    by (simp add: getTableAsync_def envNoTable_def)
  have ok: "newRowsGzipDL envTwo sched0 cfg1 world1 =
      (Returns (), rows0\<lparr>downloadedRows :=
        Some \<lparr>data = [[''a'', ''x''], [''b'', ''y''], [''c'', ''z''], [''d'', ''u''], [''e'', ''v'']],
              cursor = 0\<rparr>, ctasTableColumns := []\<rparr>,
       world0\<lparr>trace := [StartQueryExecution
          \<lparr>QueryString = ''DROP TABLE tmp_ctas_x'', Database = ''default'', CatalogName = None,
           ResultOutputLocation = ''s3://results'', WorkGroup = ''primary''\<rparr>,
        GetQueryExecution ''q1'']\<rparr>)"
    unfolding newRowsGzipDL_def r0
    by (simp add: init_def sched0_def run_task_def other_task_def loc download2 ad' drop gt2)
  have f1: "newRowsGzipDL envFail sched0 cfg1 world1 = (Fails (External ''NoSuchKey''), rows0, world1)"
    unfolding newRowsGzipDL_def r0
    by (simp add: init_def sched0_def run_task_def loc dfail)
  have f2: "newRowsGzipDL envNoTable sched0 cfg1 world1 =
      (Fails (External ''EntityNotFound''), rows0\<lparr>downloadedRows :=
        Some \<lparr>data = [[''a'', ''x''], [''b'', ''y''], [''c'', ''z''], [''d'', ''u''], [''e'', ''v'']],
              cursor = 0\<rparr>\<rparr>, world1)"
    unfolding newRowsGzipDL_def r0
    by (simp add: init_def sched0_def run_task_def other_task_def loc dok gtNo)
  show ?thesis
    using ad ok f1 f2 by (simp add: world0_def world1_def)
qed

text \<open>
  C2. The claim is that the line \<^verbatim>\<open>a\<close> U+0001 \<^verbatim>\<open>b\<close> U+0001 \<^verbatim>\<open>c\<close>, ended by a
  newline, decodes to the one row \<open>[a, b, c]\<close>, and that an empty line decodes to
  one row with one empty field. \<open>getRecordsFromGzip\<close> does the first. For the empty
  line, \<^verbatim>\<open>DecodeRune\<close> of no bytes gives \<open>RuneError\<close> with width 0, which is not
  the separator and is appended to the field: the row has one field, the three bytes
  of U+FFFD, not the empty string.
\<close>

theorem C2_decode_examples:
  "getRecordsFromGzip (NewReader (''a'' @ [CHR 0x01] @ ''b'' @ [CHR 0x01] @ ''c'' @ [CHR 0x0A]))
     = Inr [[''a'', ''b'', ''c'']]
   \<and> getRecordsFromGzip (NewReader [CHR 0x0A]) = Inr [[[CHR 0xEF, CHR 0xBF, CHR 0xBD]]]
   \<and> getRecordsFromGzip (NewReader [CHR 0x0A]) \<noteq> Inr [[[]]]"
  by (simp add: decode_simps)

text \<open>
  C3. For a query text that does not classify as SELECT, the result mode resolved by
  the query path is the API mode, whatever the connection's default and whatever
  override the context carries: in \<open>prepareContext\<close> always; in \<open>runQuery\<close> whenever
  a mode is resolved, which is the case when the override is absent or valid (an
  override outside the enumeration ends \<open>runQuery\<close> with the configuration error
  before a mode is resolved). Every configuration and every statement that the two
  functions return carries the API mode.
\<close>

theorem C3_non_select_forced_api:
  assumes "\<not> isSelectQuery query"
  shows "(\<forall>rm. runQuery_resultMode c ctx query = Inr rm \<longrightarrow> rm = ResultModeAPI)
       \<and> ((case getResultMode ctx of None \<Rightarrow> True | Some rmode \<Rightarrow> isValidResultMode rmode)
            \<longrightarrow> runQuery_resultMode c ctx query = Inr ResultModeAPI)
       \<and> prepareContext_resultMode c ctx query = ResultModeAPI
       \<and> (\<forall>cfg. fst (runQuery ext c ctx query w) = Returns cfg
              \<longrightarrow> ResultMode cfg = ResultModeAPI)
       \<and> (\<forall>stmt. fst (prepareContext ext c ctx query w) = Returns stmt
              \<longrightarrow> stmtResultMode stmt = ResultModeAPI)"
proof -
  have a: "\<forall>rm. runQuery_resultMode c ctx query = Inr rm \<longrightarrow> rm = ResultModeAPI"
    using assms by (auto simp: runQuery_resultMode_def split: option.splits if_splits)
  have b: "(case getResultMode ctx of None \<Rightarrow> True | Some rmode \<Rightarrow> isValidResultMode rmode)
            \<longrightarrow> runQuery_resultMode c ctx query = Inr ResultModeAPI"
    using assms by (auto simp: runQuery_resultMode_def split: option.splits)
  have p: "prepareContext_resultMode c ctx query = ResultModeAPI"
    using assms by (simp add: prepareContext_resultMode_def)
  have r: "\<forall>cfg. fst (runQuery ext c ctx query w) = Returns cfg
              \<longrightarrow> ResultMode cfg = ResultModeAPI"
    using a runQuery_Returns_mode by blast
  have s: "\<forall>stmt. fst (prepareContext ext c ctx query w) = Returns stmt
              \<longrightarrow> stmtResultMode stmt = ResultModeAPI"
    using p prepareContext_Returns_mode by metis
  from a b p r s show ?thesis by blast
qed


theorem C3_non_select_forced_api_witness:
  "\<not> isSelectQuery ''DROP TABLE t''
   \<and> runQuery_resultMode connDL
         ctxGzip ''DROP TABLE t'' = Inr ResultModeAPI
   \<and> prepareContext_resultMode connDL
         ctxGzip ''DROP TABLE t'' = ResultModeAPI
   \<and> (\<exists>cfg. fst (runQuery ext0 connDL
                ctxGzip ''DROP TABLE t'' world1)
              = Returns cfg \<and> ResultMode cfg = ResultModeAPI)
   \<and> (\<exists>stmt. fst (prepareContext ext0 connDL
                ctxGzip ''DROP TABLE t'' world1)
              = Returns stmt \<and> stmtResultMode stmt = ResultModeAPI)"
  using C3_non_select_forced_api [OF drop_not_select,
      of connDL ctxGzip
         ext0 world1]
    runQuery_drop_returns prepareContext_drop_returns drop_not_select
  by (auto simp: getResultMode_def isValidResultMode_def ctxGzip_def ctx0_def)

text \<open>
  C4. The claim is that every path that resolves a per-call override validates it
  and returns the invalid-result-mode error for a value outside the enumeration.
  \<open>runQuery\<close> does so, for every query and world, without making any request.
  \<open>prepareContext\<close> does not: with the override \<open>ResultModeOther 7\<close> and the query
  \<^verbatim>\<open>SELECT 1\<close> it submits the \<^verbatim>\<open>PREPARE\<close> statement and returns a statement whose
  result mode is the invalid value.
\<close>

theorem C4_prepareContext_skips_validation:
  "(\<forall>ext c query w. runQuery ext c ctxBad query w = (Fails ErrInvalidResultMode, c, w))
   \<and> prepareContext ext0 conn0 ctxBad ''SELECT 1'' world1 =
       (Returns \<lparr>prepareKey = ''tmp_prepare_6ba7b8109dad11d180b400c04fd430c8'', numInput = 0,
                 ctasTable = [], afterDownload = None,
                 stmtResultMode = ResultModeOther 7\<rparr>,
        world0\<lparr>trace :=
           [StartQueryExecution
              \<lparr>QueryString = ''PREPARE tmp_prepare_6ba7b8109dad11d180b400c04fd430c8 FROM SELECT 1'',
               Database = ''default'', CatalogName = None,
               ResultOutputLocation = ''s3://results'', WorkGroup = ''primary''\<rparr>,
            GetQueryExecution ''q1''],
          uuidCount := 1\<rparr>)"
proof (intro conjI allI)
  fix ext c query w
  show "runQuery ext c ctxBad query w = (Fails ErrInvalidResultMode, c, w)"
    by (simp add: runQuery_def runQuery_resultMode_def ctxBad_def ctx0_def getResultMode_def
          isValidResultMode_def)
next
  show "prepareContext ext0 conn0 ctxBad ''SELECT 1'' world1 =
       (Returns \<lparr>prepareKey = ''tmp_prepare_6ba7b8109dad11d180b400c04fd430c8'', numInput = 0,
                 ctasTable = [], afterDownload = None,
                 stmtResultMode = ResultModeOther 7\<rparr>,
        world0\<lparr>trace :=
           [StartQueryExecution
              \<lparr>QueryString = ''PREPARE tmp_prepare_6ba7b8109dad11d180b400c04fd430c8 FROM SELECT 1'',
               Database = ''default'', CatalogName = None,
               ResultOutputLocation = ''s3://results'', WorkGroup = ''primary''\<rparr>,
            GetQueryExecution ''q1''],
          uuidCount := 1\<rparr>)"
    by (simp add: prepareContext_def prepareContext_resultMode_def select_is_select
          getResultMode_def getCatalog_def isCreatingCTASTable_def
          ext0_def conn0_def ctx0_def ctxBad_def world1_def world0_def status_def
          startQuery_def and_then_def waitOnQuery.simps Let_def)
qed

text \<open>
  C5. The classifier tests the DDL pattern before the CTAS pattern, and every string
  that matches the CTAS pattern matches the DDL pattern too. So \<open>getQueryType\<close> returns
  the CTAS classification for no input: a CTAS text classifies as DDL, and
  \<open>isCTASQuery\<close> is false for every string.
\<close>

theorem C5_ctas_never_classified:
  "(ctasQueryPattern query \<longrightarrow> ddlQueryPattern query)
   \<and> (ctasQueryPattern query \<longrightarrow> getQueryType query = queryTypeDDL)
   \<and> getQueryType query \<noteq> queryTypeCTAS
   \<and> \<not> isCTASQuery query"
  using ctas_implies_ddl [of query]
  by (auto simp: getQueryType_def isCTASQuery_def)

lemma ctas_example_matches: "ctasQueryPattern ''CREATE TABLE t AS SELECT 1''"
proof -
  have "runes ''CREATE TABLE t AS SELECT 1'' = map of_char ''CREATE TABLE t AS SELECT 1''"
    by (rule runes_ascii) simp
  then show ?thesis
    unfolding ctasQueryPattern_def
    by (simp add: fold_orbit_def is_space_def anything_def)
qed

theorem C5_ctas_never_classified_witness:
  "ctasQueryPattern ''CREATE TABLE t AS SELECT 1''
   \<and> ddlQueryPattern ''CREATE TABLE t AS SELECT 1''
   \<and> getQueryType ''CREATE TABLE t AS SELECT 1'' = queryTypeDDL
   \<and> \<not> isCTASQuery ''CREATE TABLE t AS SELECT 1''"
  using C5_ctas_never_classified [of "''CREATE TABLE t AS SELECT 1''"] ctas_example_matches
  by simp

text \<open>
  C6. The claim is that, when the caller's context is done while the polling loop
  observes a non-terminal state, \<open>waitOnQuery\<close> issues exactly one stop request
  to the remote engine and returns the error of the context. With the status
  Running twice and the deadline passing at the second wait, \<open>waitOnQuery\<close> returns
  \<^verbatim>\<open>context.DeadlineExceeded\<close> and calls \<^verbatim>\<open>StopQueryExecution\<close> once, but with the
  context whose \<^verbatim>\<open>Done\<close> has just fired: the client sends nothing for it, and no
  stop request reaches the engine. No run of \<open>waitOnQuery\<close> sends a stop request.
  When the status check itself fails, as it does on a context that is done,
  \<open>waitOnQuery\<close> returns that error and does not call \<^verbatim>\<open>StopQueryExecution\<close>.
\<close>

theorem C6_stop_request_not_sent:
  "waitOnQuery conn0 ctx0 ''q1''
     (world0\<lparr>getReplies := [status Running, status Running],
             selectOutcomes := [TimerFired, CtxDone DeadlineExceeded]\<rparr>)
   = (Fails DeadlineExceeded,
      world0\<lparr>trace := [GetQueryExecution ''q1'', Sleep (pollFrequency conn0),
                        GetQueryExecution ''q1'',
                        StopQueryExecution (Some DeadlineExceeded) ''q1'']\<rparr>)
   \<and> length (filter is_stop
         [GetQueryExecution ''q1'', Sleep (pollFrequency conn0), GetQueryExecution ''q1'',
          StopQueryExecution (Some DeadlineExceeded) ''q1'']) = 1
   \<and> filter stop_sent
         [GetQueryExecution ''q1'', Sleep (pollFrequency conn0), GetQueryExecution ''q1'',
          StopQueryExecution (Some DeadlineExceeded) ''q1''] = []
   \<and> (\<forall>c ctx qid w. filter stop_sent (trace (snd (waitOnQuery c ctx qid w)))
                       = filter stop_sent (trace w))
   \<and> waitOnQuery conn0 ctx0 ''q1''
        (world0\<lparr>getReplies := [status Running, Inl (External ''context deadline exceeded'')],
                selectOutcomes := [TimerFired]\<rparr>)
      = (Fails (External ''context deadline exceeded''),
         world0\<lparr>trace := [GetQueryExecution ''q1'', Sleep (pollFrequency conn0),
                           GetQueryExecution ''q1'']\<rparr>)"
proof (intro conjI allI)
  let ?w = "world0\<lparr>getReplies := [status Running, status Running],
             selectOutcomes := [TimerFired, CtxDone DeadlineExceeded]\<rparr>"
  have "waitOnQuery conn0 ctx0 ''q1'' ?w =
      (Fails DeadlineExceeded,
       ?w\<lparr>trace := trace ?w @ polled ''q1'' (pollFrequency conn0)
                          (length [\<lparr>State = Running, StateChangeReason = None\<rparr>])
                      @ [GetQueryExecution ''q1'', StopQueryExecution (Some DeadlineExceeded) ''q1''],
          getReplies := [], selectOutcomes := []\<rparr>)"
    by (rule waitOnQuery_cancel [where st = "\<lparr>State = Running, StateChangeReason = None\<rparr>"])
       (simp_all add: non_terminal_def status_def world0_def)
  then show "waitOnQuery conn0 ctx0 ''q1'' ?w
   = (Fails DeadlineExceeded,
      world0\<lparr>trace := [GetQueryExecution ''q1'', Sleep (pollFrequency conn0),
                        GetQueryExecution ''q1'',
                        StopQueryExecution (Some DeadlineExceeded) ''q1'']\<rparr>)"
    by (simp add: world0_def polled_def)
next
  show "length (filter is_stop
         [GetQueryExecution ''q1'', Sleep (pollFrequency conn0), GetQueryExecution ''q1'',
          StopQueryExecution (Some DeadlineExceeded) ''q1'']) = 1"
    by (simp add: is_stop_def)
next
  show "filter stop_sent
         [GetQueryExecution ''q1'', Sleep (pollFrequency conn0), GetQueryExecution ''q1'',
          StopQueryExecution (Some DeadlineExceeded) ''q1''] = []"
    by (simp add: stop_sent_def)
next
  fix c ctx qid w
  show "filter stop_sent (trace (snd (waitOnQuery c ctx qid w))) = filter stop_sent (trace w)"
    by (rule waitOnQuery_never_sends_stop)
next
  show "waitOnQuery conn0 ctx0 ''q1''
        (world0\<lparr>getReplies := [status Running, Inl (External ''context deadline exceeded'')],
                selectOutcomes := [TimerFired]\<rparr>)
      = (Fails (External ''context deadline exceeded''),
         world0\<lparr>trace := [GetQueryExecution ''q1'', Sleep (pollFrequency conn0),
                           GetQueryExecution ''q1'']\<rparr>)"
    by (simp add: waitOnQuery.simps world0_def status_def Let_def)
qed

text \<open>
  C7. When the status checks return Queued, Running, Running, Succeeded and every
  wait ends with the timer, \<open>waitOnQuery\<close> makes exactly four status checks, one
  after the other with a sleep of the poll interval between them, and returns
  without an error. On a Failed state, reached after any number of non-terminal
  rounds, it returns the reason supplied by the engine as the error; on a Cancelled
  state it returns \<^verbatim>\<open>context.Canceled\<close>.
\<close>

theorem C7_polling:
  "(getReplies w = status Queued # status Running # status Running # status Succeeded # reps
      \<and> selectOutcomes w = TimerFired # TimerFired # TimerFired # sels
    \<longrightarrow> waitOnQuery c ctx qid w =
          (Returns (),
           w\<lparr>trace := trace w @
                  [GetQueryExecution qid, Sleep (pollFrequency c),
                   GetQueryExecution qid, Sleep (pollFrequency c),
                   GetQueryExecution qid, Sleep (pollFrequency c),
                   GetQueryExecution qid],
              getReplies := reps, selectOutcomes := sels\<rparr>)
        \<and> length (filter is_poll (trace (snd (waitOnQuery c ctx qid w))))
            = length (filter is_poll (trace w)) + 4)
   \<and> ((\<forall>st \<in> set sts. non_terminal st)
      \<and> getReplies w = map (Inr \<circ> Some) sts
            @ Inr (Some \<lparr>State = Failed, StateChangeReason = Some reason\<rparr>) # reps
      \<and> selectOutcomes w = replicate (length sts) TimerFired @ sels
    \<longrightarrow> fst (waitOnQuery c ctx qid w) = Fails (ErrorString reason))
   \<and> ((\<forall>st \<in> set sts. non_terminal st)
      \<and> getReplies w = map (Inr \<circ> Some) sts
            @ Inr (Some \<lparr>State = Cancelled, StateChangeReason = r\<rparr>) # reps
      \<and> selectOutcomes w = replicate (length sts) TimerFired @ sels
    \<longrightarrow> fst (waitOnQuery c ctx qid w) = Fails Canceled)"
proof (intro conjI impI)
  let ?three = "[\<lparr>State = Queued, StateChangeReason = None\<rparr>,
                 \<lparr>State = Running, StateChangeReason = None\<rparr>,
                 \<lparr>State = Running, StateChangeReason = None\<rparr>]"
  assume a: "getReplies w = status Queued # status Running # status Running # status Succeeded # reps
      \<and> selectOutcomes w = TimerFired # TimerFired # TimerFired # sels"
  let ?w1 = "w\<lparr>trace := trace w @ polled qid (pollFrequency c) (length ?three),
               getReplies := status Succeeded # reps, selectOutcomes := sels\<rparr>"
  have "waitOnQuery c ctx qid w = waitOnQuery c ctx qid ?w1"
    using a by (intro waitOnQuery_skip) (simp_all add: non_terminal_def status_def)
  also have "\<dots> = (Returns (),
       ?w1\<lparr>trace := trace ?w1 @ [GetQueryExecution qid], getReplies := reps\<rparr>)"
    by (rule waitOnQuery_terminal(1) [where st = "\<lparr>State = Succeeded, StateChangeReason = None\<rparr>"])
       (simp_all add: status_def)
  finally show eq: "waitOnQuery c ctx qid w =
          (Returns (),
           w\<lparr>trace := trace w @
                  [GetQueryExecution qid, Sleep (pollFrequency c),
                   GetQueryExecution qid, Sleep (pollFrequency c),
                   GetQueryExecution qid, Sleep (pollFrequency c),
                   GetQueryExecution qid],
              getReplies := reps, selectOutcomes := sels\<rparr>)"
    by (simp add: polled_def)
  show "length (filter is_poll (trace (snd (waitOnQuery c ctx qid w))))
            = length (filter is_poll (trace w)) + 4"
    unfolding eq by (simp add: is_poll_def)
next
  assume a: "(\<forall>st \<in> set sts. non_terminal st)
      \<and> getReplies w = map (Inr \<circ> Some) sts
            @ Inr (Some \<lparr>State = Failed, StateChangeReason = Some reason\<rparr>) # reps
      \<and> selectOutcomes w = replicate (length sts) TimerFired @ sels"
  let ?w1 = "w\<lparr>trace := trace w @ polled qid (pollFrequency c) (length sts),
               getReplies := Inr (Some \<lparr>State = Failed, StateChangeReason = Some reason\<rparr>) # reps,
               selectOutcomes := sels\<rparr>"
  have "waitOnQuery c ctx qid w = waitOnQuery c ctx qid ?w1"
    using a by (intro waitOnQuery_skip) simp_all
  also have "fst \<dots> = Fails (ErrorString reason)"
    by (subst waitOnQuery_terminal(3)
          [where st = "\<lparr>State = Failed, StateChangeReason = Some reason\<rparr>"]) simp_all
  finally show "fst (waitOnQuery c ctx qid w) = Fails (ErrorString reason)" .
next
  assume a: "(\<forall>st \<in> set sts. non_terminal st)
      \<and> getReplies w = map (Inr \<circ> Some) sts
            @ Inr (Some \<lparr>State = Cancelled, StateChangeReason = r\<rparr>) # reps
      \<and> selectOutcomes w = replicate (length sts) TimerFired @ sels"
  let ?w1 = "w\<lparr>trace := trace w @ polled qid (pollFrequency c) (length sts),
               getReplies := Inr (Some \<lparr>State = Cancelled, StateChangeReason = r\<rparr>) # reps,
               selectOutcomes := sels\<rparr>"
  have "waitOnQuery c ctx qid w = waitOnQuery c ctx qid ?w1"
    using a by (intro waitOnQuery_skip) simp_all
  also have "fst \<dots> = Fails Canceled"
    by (subst waitOnQuery_terminal(2)
          [where st = "\<lparr>State = Cancelled, StateChangeReason = r\<rparr>"]) simp_all
  finally show "fst (waitOnQuery c ctx qid w) = Fails Canceled" .
qed

theorem C7_polling_witness:
  "waitOnQuery conn0 ctx0 ''q1''
     (world0\<lparr>getReplies := [status Queued, status Running, status Running, status Succeeded],
             selectOutcomes := [TimerFired, TimerFired, TimerFired]\<rparr>)
     = (Returns (),
        world0\<lparr>trace := [GetQueryExecution ''q1'', Sleep (pollFrequency conn0),
                   GetQueryExecution ''q1'', Sleep (pollFrequency conn0),
                   GetQueryExecution ''q1'', Sleep (pollFrequency conn0),
                   GetQueryExecution ''q1'']\<rparr>)
   \<and> fst (waitOnQuery conn0 ctx0 ''q1''
        (world0\<lparr>getReplies := [status Running,
                   Inr (Some \<lparr>State = Failed, StateChangeReason = Some ''SYNTAX_ERROR''\<rparr>)],
                selectOutcomes := [TimerFired]\<rparr>))
     = Fails (ErrorString ''SYNTAX_ERROR'')
   \<and> fst (waitOnQuery conn0 ctx0 ''q1''
        (world0\<lparr>getReplies := [status Running,
                   Inr (Some \<lparr>State = Cancelled, StateChangeReason = None\<rparr>)],
                selectOutcomes := [TimerFired]\<rparr>))
     = Fails Canceled"
proof (intro conjI)
  let ?w = "world0\<lparr>getReplies := [status Queued, status Running, status Running, status Succeeded],
             selectOutcomes := [TimerFired, TimerFired, TimerFired]\<rparr>"
  show "waitOnQuery conn0 ctx0 ''q1'' ?w
     = (Returns (),
        world0\<lparr>trace := [GetQueryExecution ''q1'', Sleep (pollFrequency conn0),
                   GetQueryExecution ''q1'', Sleep (pollFrequency conn0),
                   GetQueryExecution ''q1'', Sleep (pollFrequency conn0),
                   GetQueryExecution ''q1'']\<rparr>)"
    using C7_polling [where w = ?w and reps = "[]" and sels = "[]" and c = conn0 and ctx = ctx0
        and qid = "''q1''"]
    by (simp add: world0_def)
next
  let ?w = "world0\<lparr>getReplies := [status Running,
                   Inr (Some \<lparr>State = Failed, StateChangeReason = Some ''SYNTAX_ERROR''\<rparr>)],
                selectOutcomes := [TimerFired]\<rparr>"
  show "fst (waitOnQuery conn0 ctx0 ''q1'' ?w) = Fails (ErrorString ''SYNTAX_ERROR'')"
    using C7_polling [where w = ?w and reps = "[]" and sels = "[]" and c = conn0 and ctx = ctx0
        and qid = "''q1''" and sts = "[\<lparr>State = Running, StateChangeReason = None\<rparr>]"
        and reason = "''SYNTAX_ERROR''"]
    by (simp add: world0_def status_def non_terminal_def)
next
  let ?w = "world0\<lparr>getReplies := [status Running,
                   Inr (Some \<lparr>State = Cancelled, StateChangeReason = None\<rparr>)],
                selectOutcomes := [TimerFired]\<rparr>"
  show "fst (waitOnQuery conn0 ctx0 ''q1'' ?w) = Fails Canceled"
    using C7_polling [where w = ?w and reps = "[]" and sels = "[]" and c = conn0 and ctx = ctx0
        and qid = "''q1''" and sts = "[\<lparr>State = Running, StateChangeReason = None\<rparr>]"
        and r = None]
    by (simp add: world0_def status_def non_terminal_def)
qed

text \<open>
  C8. In the compressed download, for a manifest with the lines \<open>ls\<close> (each ended
  by a newline and shorter than the scanner's limit), when every object that a
  line stands for is fetched, decompressed and decoded without an error,
  \<open>downloadCompressedData\<close> returns without an error and the buffer of a fresh
  cursor holds the concatenation of the rows of the listed objects, in the order
  of the lines of the manifest, an object listed twice contributing twice, with the
  cursor at zero. For a manifest that lists \<open>t1\<close> and \<open>t2\<close>, of three and two rows,
  the buffer holds the five rows, those of \<open>t1\<close> in their order, then those of \<open>t2\<close>.
\<close>

theorem C8_concatenation:
  assumes "location \<noteq> []" and "5 \<le> length (trimmed location)"
    and "GetObject env (drop 5 (trimmed location)) (''tables/'' @ queryID r @ ''-manifest.csv'')
           = Inr body"
    and "ReadAll body = Inr (manifest_of ls)"
    and "\<forall>l \<in> set ls. CHR 0x0A \<notin> set l \<and> length l < MaxScanTokenSize"
    and "\<forall>l \<in> set ls. fetch_rows env (drop 5 (trimmed location))
                          (object_key (trimmed location) l) = Inr (rows l)"
    and "downloadedRows r = None"
  shows "fst (downloadCompressedData env r location) = Returns ()
       \<and> buffered_rows (snd (downloadCompressedData env r location)) = concat (map rows ls)
       \<and> (ls \<noteq> [] \<longrightarrow> downloadedRows (snd (downloadCompressedData env r location))
              = Some \<lparr>data = concat (map rows ls), cursor = 0\<rparr>)"
proof -
  let ?b = "drop 5 (trimmed location)"
  let ?keys = "map (object_key (trimmed location)) ls"
  define rowsK where "rowsK k = (case fetch_rows env ?b k of Inr x \<Rightarrow> x | Inl e \<Rightarrow> [])" for k
  have keys: "getObjectKeysForGzip (NewReader (manifest_of ls)) (int (length (trimmed location)) + 1)
               = Inr ?keys"
  proof -
    have n: "nat (int (length (trimmed location)) + 1) = length (trimmed location) + 1"
      by simp
    show ?thesis
      by (subst getObjectKeysForGzip_lines [OF assms(5)]) (simp add: object_key_def n)
  qed
  have eq: "downloadCompressedData env r location = downloadCompressedData_loop env ?b ?keys r"
    using assms(1-4) keys
    by (simp add: downloadCompressedData_def Let_def trimmed_def [symmetric] del: One_nat_def)
  have f: "\<forall>k \<in> set ?keys. fetch_rows env ?b k = Inr (rowsK k)"
    using assms(6) by (auto simp: rowsK_def)
  have c: "concat (map rowsK ?keys) = concat (map rows ls)"
    using assms(6) by (auto simp: rowsK_def comp_def intro!: arg_cong [where f = concat])
  show ?thesis
    unfolding eq
    using loop_appends [OF f, of r] assms(7) c
    by (simp add: buffered_rows_def)
qed

theorem C8_concatenation_witness:
  "manifest2 = manifest_of [''s3://results/t1'', ''s3://results/t2'']
   \<and> fetch_rows envTwo ''results'' ''t1'' = Inr [[''a'', ''x''], [''b'', ''y''], [''c'', ''z'']]
   \<and> fetch_rows envTwo ''results'' ''t2'' = Inr [[''d'', ''u''], [''e'', ''v'']]
   \<and> fst (downloadCompressedData envTwo rows0 ''s3://results/'') = Returns ()
   \<and> downloadedRows (snd (downloadCompressedData envTwo rows0 ''s3://results/''))
       = Some \<lparr>data = [[''a'', ''x''], [''b'', ''y''], [''c'', ''z''], [''d'', ''u''], [''e'', ''v'']],
               cursor = 0\<rparr>
   \<and> manifest3 = manifest_of [''s3://results/t2'', ''s3://results/t1'', ''s3://results/t1'']
   \<and> fst (downloadCompressedData envThree rows0 ''s3://results'') = Returns ()
   \<and> downloadedRows (snd (downloadCompressedData envThree rows0 ''s3://results''))
       = Some \<lparr>data = [[''d'', ''u''], [''e'', ''v''],
                       [''a'', ''x''], [''b'', ''y''], [''c'', ''z''],
                       [''a'', ''x''], [''b'', ''y''], [''c'', ''z'']],
               cursor = 0\<rparr>"
proof -
  let ?rows = "\<lambda>l. rows2 (object_key ''s3://results'' l)"
  have t: "trimmed ''s3://results/'' = ''s3://results''" "trimmed ''s3://results'' = ''s3://results''"
    by (simp_all add: trimmed_def)
  have m2: "manifest2 = manifest_of [''s3://results/t1'', ''s3://results/t2'']"
    and m3: "manifest3 = manifest_of [''s3://results/t2'', ''s3://results/t1'', ''s3://results/t1'']"
    by (simp_all add: manifest2_def manifest3_def manifest_of_def)
  have k: "object_key ''s3://results'' ''s3://results/t1'' = ''t1''"
          "object_key ''s3://results'' ''s3://results/t2'' = ''t2''"
    by (simp_all add: object_key_def dropCR_def)
  have f3: "fetch_rows envThree ''results'' ''t1'' = Inr (rows2 ''t1'')"
           "fetch_rows envThree ''results'' ''t2'' = Inr (rows2 ''t2'')"
    by (simp_all add: fetch_rows_def envThree_def rows2_def object1_def object2_def decode_simps)
  have a: "fst (downloadCompressedData envTwo rows0 ''s3://results/'') = Returns ()
       \<and> buffered_rows (snd (downloadCompressedData envTwo rows0 ''s3://results/''))
           = concat (map ?rows [''s3://results/t1'', ''s3://results/t2''])
       \<and> ([''s3://results/t1'', ''s3://results/t2''] \<noteq> [] \<longrightarrow>
            downloadedRows (snd (downloadCompressedData envTwo rows0 ''s3://results/''))
              = Some \<lparr>data = concat (map ?rows [''s3://results/t1'', ''s3://results/t2'']),
                      cursor = 0\<rparr>)"
  proof (rule C8_concatenation [where body = "NewReader manifest2"])
    show "''s3://results/'' \<noteq> []" by simp
    show "5 \<le> length (trimmed ''s3://results/'')" by (simp add: t)
    show "GetObject envTwo (drop 5 (trimmed ''s3://results/''))
            (''tables/'' @ queryID rows0 @ ''-manifest.csv'') = Inr (NewReader manifest2)"
      by (simp add: t envTwo_def rows0_def)
    show "ReadAll (NewReader manifest2) = Inr (manifest_of [''s3://results/t1'', ''s3://results/t2''])"
      by (simp add: m2 [symmetric]) (simp add: ReadAll_def NewReader_def manifest2_def)
    show "\<forall>l \<in> set [''s3://results/t1'', ''s3://results/t2''].
            CHR 0x0A \<notin> set l \<and> length l < MaxScanTokenSize"
      by (simp add: MaxScanTokenSize_def)
    show "\<forall>l \<in> set [''s3://results/t1'', ''s3://results/t2''].
            fetch_rows envTwo (drop 5 (trimmed ''s3://results/''))
              (object_key (trimmed ''s3://results/'') l) = Inr (?rows l)"
      using fetch2 by (simp add: t k)
    show "downloadedRows rows0 = None" by (simp add: rows0_def)
  qed
  have b: "fst (downloadCompressedData envThree rows0 ''s3://results'') = Returns ()
       \<and> buffered_rows (snd (downloadCompressedData envThree rows0 ''s3://results''))
           = concat (map ?rows [''s3://results/t2'', ''s3://results/t1'', ''s3://results/t1''])
       \<and> ([''s3://results/t2'', ''s3://results/t1'', ''s3://results/t1''] \<noteq> [] \<longrightarrow>
            downloadedRows (snd (downloadCompressedData envThree rows0 ''s3://results''))
              = Some \<lparr>data = concat (map ?rows
                        [''s3://results/t2'', ''s3://results/t1'', ''s3://results/t1'']),
                      cursor = 0\<rparr>)"
  proof (rule C8_concatenation [where body = "[(manifest3, Some EOF)]"])
    show "''s3://results'' \<noteq> []" by simp
    show "5 \<le> length (trimmed ''s3://results'')" by (simp add: t)
    show "GetObject envThree (drop 5 (trimmed ''s3://results''))
            (''tables/'' @ queryID rows0 @ ''-manifest.csv'') = Inr [(manifest3, Some EOF)]"
      by (simp add: t envThree_def rows0_def)
    show "ReadAll [(manifest3, Some EOF)]
            = Inr (manifest_of [''s3://results/t2'', ''s3://results/t1'', ''s3://results/t1''])"
      by (simp add: m3 [symmetric]) (simp add: ReadAll_def)
    show "\<forall>l \<in> set [''s3://results/t2'', ''s3://results/t1'', ''s3://results/t1''].
            CHR 0x0A \<notin> set l \<and> length l < MaxScanTokenSize"
      by (simp add: MaxScanTokenSize_def)
    show "\<forall>l \<in> set [''s3://results/t2'', ''s3://results/t1'', ''s3://results/t1''].
            fetch_rows envThree (drop 5 (trimmed ''s3://results''))
              (object_key (trimmed ''s3://results'') l) = Inr (?rows l)"
      using f3 by (simp add: t k)
    show "downloadedRows rows0 = None" by (simp add: rows0_def)
  qed
  from a b m2 m3 fetch2 show ?thesis
    by (simp add: k rows2_def)
qed

text \<open>
  C9. Once the cursor has reached the length of the buffer, \<open>Next\<close> returns
  \<^verbatim>\<open>io.EOF\<close> and leaves the cursor and the buffer as they are, and so does every
  later call. Every call of \<open>Next\<close> keeps the cursor at most the number of rows,
  and a call that succeeds moves the cursor forward by exactly one row and changes
  nothing else.
\<close>

theorem C9_cursor:
  "(downloadedRows r = Some d \<and> length (data d) \<le> cursor d
      \<longrightarrow> Next conv r dest = (Fails EOF, r, dest)
        \<and> Next_calls conv r dests = (replicate (length dests) (Fails EOF), r))
   \<and> (cursor_ok r \<longrightarrow> cursor_ok (fst (snd (Next conv r dest))))
   \<and> (fst (Next conv r dest) = Returns ()
      \<longrightarrow> (\<exists>d'. downloadedRows r = Some d' \<and> cursor d' < length (data d')
            \<and> fst (snd (Next conv r dest))
                = r\<lparr>downloadedRows := Some (d'\<lparr>cursor := cursor d' + 1\<rparr>)\<rparr>))"
  using Next_at_end [of r d conv dest] Next_calls_at_end [of r d conv dests]
    Next_cursor_ok [of r conv dest] Next_success [of conv r dest]
  by blast

theorem C9_cursor_witness:
  "Next conv0 (buffer2 2) [] = (Fails EOF, buffer2 2, [])
   \<and> Next_calls conv0 (buffer2 2) [[], [], []] = ([Fails EOF, Fails EOF, Fails EOF], buffer2 2)
   \<and> cursor_ok (buffer2 1) \<and> cursor_ok (fst (snd (Next conv0 (buffer2 1) [])))
   \<and> Next conv0 (buffer2 1) [] = (Returns (), buffer2 2, [''b''])"
proof -
  have n: "Next conv0 (buffer2 1) [] = (Returns (), buffer2 2, [''b''])"
    by (simp add: Next_def nextCTAS_def buffer2_def rows0_def conv0_def)
  have ok: "cursor_ok (buffer2 1)"
    by (simp add: cursor_ok_def buffer2_def rows0_def)
  have e: "downloadedRows (buffer2 2) = Some \<lparr>data = [[''a''], [''b'']], cursor = 2\<rparr>
      \<and> length (data \<lparr>data = [[''a''], [''b'']], cursor = 2\<rparr>)
          \<le> cursor \<lparr>data = [[''a''], [''b'']], cursor = 2\<rparr>"
    by (simp add: buffer2_def rows0_def)
  show ?thesis
    using C9_cursor [of "buffer2 2" "\<lparr>data = [[''a''], [''b'']], cursor = 2\<rparr>" conv0 "[]" "[[], [], []]"]
      C9_cursor [of "buffer2 1" "\<lparr>data = [[''a''], [''b'']], cursor = 1\<rparr>" conv0 "[]" "[]"]
      e ok n
    by simp
qed

text \<open>
  C10 (as stated). The claim makes a location of at least six bytes after the
  removal of the trailing slash, with the prefix \<^verbatim>\<open>s3://\<close>, the condition under
  which \<open>downloadCompressedData\<close> has a result. The location \<^verbatim>\<open>s3:///\<close> has
  five bytes after the removal, and \<^verbatim>\<open>abcde\<close> has five bytes and no prefix: for
  both the slices are in range and the function returns the error of the object
  store.
\<close>

theorem C10_slice_bounds_counterexample:
  "length (take (length ''s3:///'' - 1) ''s3:///'') < 6
   \<and> fst (downloadCompressedData envFail rows0 ''s3:///'') = Fails (External ''NoSuchKey'')
   \<and> fst (downloadCompressedData envFail rows0 ''abcde'') = Fails (External ''NoSuchKey'')"
  by (simp add: downloadCompressedData_def envFail_def)

text \<open>
  C10 (amended). \<open>downloadCompressedData\<close> slices the location with no check of
  its length or prefix. It panics with slice bounds out of range exactly when the
  location is empty or fewer than five bytes remain after the removal of one
  trailing slash, that is, when the location has fewer than five bytes, or exactly
  five of which the last is a slash; for every other location it returns, with
  an error or without.
\<close>

theorem C10_slice_bounds:
  "((\<exists>p. fst (downloadCompressedData env r location) = Panics p)
     \<longleftrightarrow> (length location < 5 \<or> (length location = 5 \<and> last location = CHR ''/'')))
   \<and> fst (downloadCompressedData env r location) \<noteq> Pending"
proof (cases "location = []")
  case True
  then show ?thesis by (simp add: downloadCompressedData_def)
next
  case False
  let ?loc = "if drop (length location - 1) location = ''/''
              then take (length location - 1) location else location"
  from False have d: "drop (length location - 1) location = [last location]"
    by (metis append_butlast_last_id append_eq_conv_conj length_butlast)
  have len: "length ?loc = (if last location = CHR ''/'' then length location - 1
                            else length location)"
    by (simp only: d) simp
  have "(\<exists>p. fst (downloadCompressedData env r location) = Panics p) \<longleftrightarrow> length ?loc < 5"
  proof (cases "length ?loc < 5")
    case True
    with False show ?thesis
      by (simp add: downloadCompressedData_def Let_def del: One_nat_def)
  next
    case ge: False
    have "fst (downloadCompressedData env r location) \<noteq> Panics p" for p
      using False ge loop_no_panic [of env]
      by (simp add: downloadCompressedData_def Let_def del: One_nat_def split: sum.splits)
    with ge show ?thesis by blast
  qed
  also have "\<dots> \<longleftrightarrow> (length location < 5 \<or> (length location = 5 \<and> last location = CHR ''/''))"
    using False unfolding len by (cases location) auto
  finally show ?thesis
    using download_no_pending [of env r location] by simp
qed

theorem C10_slice_bounds_witness:
  "(\<exists>p. fst (downloadCompressedData envFail rows0 []) = Panics p)
   \<and> (\<exists>p. fst (downloadCompressedData envFail rows0 ''s3://'') = Panics p)
   \<and> \<not> (\<exists>p. fst (downloadCompressedData envFail rows0 ''s3://results'') = Panics p)
   \<and> fst (downloadCompressedData envFail rows0 ''s3://results'') \<noteq> Pending"
  using C10_slice_bounds [of envFail rows0 "[]"] C10_slice_bounds [of envFail rows0 "''s3://''"]
    C10_slice_bounds [of envFail rows0 "''s3://results''"]
  by simp

end
